theory Spec2Isabelle
  imports Complex_Main "HOL-Library.Log_Nat"
begin

section \<open>The trip calculator of \<^verbatim>\<open>src/components/trip-calculator.tsx\<close>\<close>

text \<open>
  The component holds two pieces of logic: the form schema \<^verbatim>\<open>formSchema\<close>, which
  validates what the form submits, and \<^verbatim>\<open>calculateTripValue\<close>, which turns the
  validated values into a breakdown of the trip's value.

  Numbers. The calculation is embedded twice. \<^verbatim>\<open>calculateTripValue\<close> below is the
  function in exact arithmetic, its numbers the reals and its literals the rationals they
  write: it carries the properties that are equations between the source's own
  expressions, or that involve no arithmetic, and so do not depend on how a sum or a
  product is rounded. \<^verbatim>\<open>calculateTripValue64\<close> further down is the function on the
  numbers of the program, binary64 with its rounding, its infinities and \<^verbatim>\<open>NaN\<close>: it
  carries the properties that do depend on them. In the form schema a number is a real or
  \<^verbatim>\<open>NaN\<close>, the value of a failed coercion.
\<close>

subsection \<open>The validated values and the result\<close>

datatype position = Speaker | Galley | Purser

text \<open>
  \<^verbatim>\<open>type FormValues\<close>. The two fields declared with \<^verbatim>\<open>?\<close> may be
  \<^verbatim>\<open>undefined\<close>, which is \<^term>\<open>None\<close> here.
\<close>

record FormValues =
  internationalTrip :: bool
  seniorityYears :: real
  tafb :: real
  hourlyRate :: real
  credit :: real
  position :: position
  isMexicoCaribbean :: bool
  nightPayHours :: real
  aircraft :: "string option"
  hoursInWidebody :: "real option"

text \<open>The object \<^verbatim>\<open>calculateTripValue\<close> returns (the type of the \<^verbatim>\<open>results\<close> state).\<close>

record TripResult =
  perdiem :: real
  perdiemValue :: real
  positionCredit :: real
  internationalCredit :: real
  nightPayCredit :: real
  totalTripValue :: real

subsection \<open>JavaScript operators used by the calculation\<close>

text \<open>
  \<^verbatim>\<open>values.aircraft || ""\<close>: the left operand unless it is falsy; of the values of
  \<^verbatim>\<open>string | undefined\<close> the falsy ones are \<^verbatim>\<open>undefined\<close> and the empty string.
\<close>

definition aircraft_or_empty :: "string option \<Rightarrow> string" where
  "aircraft_or_empty a = (case a of None \<Rightarrow> '''' | Some s \<Rightarrow> if s = '''' then '''' else s)"

text \<open>
  \<^verbatim>\<open>values.hoursInWidebody || 0\<close>: of the values of \<^verbatim>\<open>number | undefined\<close> that
  the model has, the falsy ones are \<^verbatim>\<open>undefined\<close> and \<^verbatim>\<open>0\<close>.
\<close>

definition hours_or_zero :: "real option \<Rightarrow> real" where
  "hours_or_zero h = (case h of None \<Rightarrow> 0 | Some x \<Rightarrow> if x = 0 then 0 else x)"

text \<open>\<^verbatim>\<open>Array.prototype.includes\<close> on an array of strings.\<close>

definition array_includes :: "string list \<Rightarrow> string \<Rightarrow> bool" where
  "array_includes xs s = (s \<in> set xs)"

subsection \<open>\<^verbatim>\<open>calculateTripValue\<close>\<close>

text \<open>
  The function, statement by statement. \<^verbatim>\<open>let positionCredit = 0\<close> followed by the
  chain of \<^verbatim>\<open>if\<close>s that assigns it is one conditional expression, in which a branch
  that assigns nothing leaves the initial 0.
\<close>

definition calculateTripValue :: "FormValues \<Rightarrow> TripResult" where
  "calculateTripValue values =
     (let seniorityFactor = real_of_int \<lfloor>seniorityYears values / 2\<rfloor>;
          perdiem = (if internationalTrip values then 2.7 + seniorityFactor * 0.05
                     else 2.2 + seniorityFactor * 0.05);
          perdiemValue = tafb values * perdiem;
          internationalCredit = (if internationalTrip values then credit values * 2 else 0);
          positionCredit =
            (if position values = Purser then
               (if array_includes [''A319'', ''A320'', ''B737'']
                     (aircraft_or_empty (aircraft values)) then
                  (if isMexicoCaribbean values then credit values * 2 else credit values * 1)
                else if array_includes [''B737-800'', ''B737-900'', ''B757'']
                          (aircraft_or_empty (aircraft values)) then
                  (if isMexicoCaribbean values then credit values * 3 else credit values * 2)
                else if aircraft values = Some ''widebody'' then
                  (if isMexicoCaribbean values then credit values * 4 else credit values * 3)
                else 0)
             else if position values = Galley then hours_or_zero (hoursInWidebody values)
             else if position values = Speaker then credit values * 2.5
             else 0);
          nightPayCredit = nightPayHours values / 2;
          baseValue = hourlyRate values * credit values;
          totalTripValue =
            baseValue + perdiemValue + positionCredit + internationalCredit + nightPayCredit
      in \<lparr>perdiem = perdiem,
          perdiemValue = perdiemValue,
          positionCredit = positionCredit,
          internationalCredit = internationalCredit,
          nightPayCredit = nightPayCredit,
          totalTripValue = totalTripValue\<rparr>)"

section \<open>The calculation in binary64\<close>

text \<open>
  The program computes with JavaScript numbers: binary64 values with rounding to nearest,
  ties to even, the two infinities and \<^verbatim>\<open>NaN\<close>. This section embeds
  \<^verbatim>\<open>calculateTripValue\<close> a second time, over those numbers, for the properties that
  depend on the rounding or on the infinities. The zero of the model has no sign: the
  function only adds, multiplies, halves, takes floors and compares, and none of these
  tells \<^verbatim>\<open>-0\<close> from \<^verbatim>\<open>0\<close> in a way that the results below can see.
\<close>

subsection \<open>Binary64 numbers and rounding\<close>

text \<open>
  A number is a finite value, an infinity or \<^verbatim>\<open>NaN\<close>. The finite values that the
  operations produce are the reals that binary64 represents (\<open>rounded x = x\<close>).
\<close>

datatype binary64 = Num real | PosInf | NegInf | NaN

text \<open>Rounding a real to the nearest integer, a tie going to the even one.\<close>

definition rne :: "real \<Rightarrow> int" where
  "rne y = (let f = \<lfloor>y\<rfloor> in
     if y - of_int f < 1 / 2 then f
     else if 1 / 2 < y - of_int f then f + 1
     else if even f then f else f + 1)"

text \<open>
  The binade of a positive real \<open>x\<close>: the \<open>k\<close> with \<open>2 powi k \<le> x < 2 powi (k + 1)\<close>,
  computed from the bit length of an integer.
\<close>

definition binade :: "real \<Rightarrow> int" where
  "binade x = (if 1 \<le> x then bitlen \<lfloor>x\<rfloor> - 1 else - bitlen (\<lceil>1 / x\<rceil> - 1))"

text \<open>
  The exponent of the unit in the last place of a binary64 significand of 53 bits, which
  is never below that of the subnormal numbers.
\<close>

definition exponent64 :: "real \<Rightarrow> int" where
  "exponent64 x = max (binade \<bar>x\<bar> - 52) (- 1074)"

text \<open>The nearest multiple of the unit in the last place, with no bound on the exponent.\<close>

definition rounded :: "real \<Rightarrow> real" where
  "rounded x =
     (if x = 0 then 0
      else of_int (rne (x / 2 powi exponent64 x)) * 2 powi exponent64 x)"

text \<open>
  The binary64 value of a real: the rounded value, or an infinity when that is beyond the
  largest finite number. A decimal literal of the source denotes the binary64 value of
  the number it writes.
\<close>

definition round64 :: "real \<Rightarrow> binary64" where
  "round64 x =
     (if 2 ^ 1024 \<le> \<bar>rounded x\<bar> then (if 0 < x then PosInf else NegInf)
      else Num (rounded x))"

subsection \<open>The operators of the source on binary64 numbers\<close>

text \<open>\<^verbatim>\<open>a + b\<close>\<close>

fun fadd :: "binary64 \<Rightarrow> binary64 \<Rightarrow> binary64" where
  "fadd (Num a) (Num b) = round64 (a + b)"
| "fadd NaN _ = NaN"
| "fadd _ NaN = NaN"
| "fadd PosInf NegInf = NaN"
| "fadd NegInf PosInf = NaN"
| "fadd PosInf _ = PosInf"
| "fadd _ PosInf = PosInf"
| "fadd NegInf _ = NegInf"
| "fadd _ NegInf = NegInf"

definition infinity_of_sign :: "bool \<Rightarrow> binary64" where
  "infinity_of_sign positive = (if positive then PosInf else NegInf)"

text \<open>\<^verbatim>\<open>a * b\<close>: an infinity times zero is \<^verbatim>\<open>NaN\<close>.\<close>

fun fmul :: "binary64 \<Rightarrow> binary64 \<Rightarrow> binary64" where
  "fmul (Num a) (Num b) = round64 (a * b)"
| "fmul NaN _ = NaN"
| "fmul _ NaN = NaN"
| "fmul PosInf (Num b) = (if b = 0 then NaN else infinity_of_sign (0 < b))"
| "fmul NegInf (Num b) = (if b = 0 then NaN else infinity_of_sign (b < 0))"
| "fmul (Num a) PosInf = (if a = 0 then NaN else infinity_of_sign (0 < a))"
| "fmul (Num a) NegInf = (if a = 0 then NaN else infinity_of_sign (a < 0))"
| "fmul PosInf PosInf = PosInf"
| "fmul NegInf NegInf = PosInf"
| "fmul PosInf NegInf = NegInf"
| "fmul NegInf PosInf = NegInf"

text \<open>\<^verbatim>\<open>a / b\<close>; the source divides by the literal 2 only.\<close>

fun fdiv :: "binary64 \<Rightarrow> binary64 \<Rightarrow> binary64" where
  "fdiv (Num a) (Num b) =
     (if b = 0 then (if a = 0 then NaN else infinity_of_sign (0 < a))
      else round64 (a / b))"
| "fdiv NaN _ = NaN"
| "fdiv _ NaN = NaN"
| "fdiv PosInf (Num b) = infinity_of_sign (0 \<le> b)"
| "fdiv NegInf (Num b) = infinity_of_sign (b < 0)"
| "fdiv (Num a) PosInf = Num 0"
| "fdiv (Num a) NegInf = Num 0"
| "fdiv _ _ = NaN"

text \<open>\<^verbatim>\<open>Math.floor\<close>\<close>

fun ffloor :: "binary64 \<Rightarrow> binary64" where
  "ffloor (Num a) = Num (of_int \<lfloor>a\<rfloor>)"
| "ffloor d = d"

text \<open>\<^verbatim>\<open>a <= b\<close>: false when either side is \<^verbatim>\<open>NaN\<close>.\<close>

fun fle :: "binary64 \<Rightarrow> binary64 \<Rightarrow> bool" where
  "fle (Num a) (Num b) = (a \<le> b)"
| "fle NaN _ = False"
| "fle _ NaN = False"
| "fle NegInf _ = True"
| "fle _ PosInf = True"
| "fle _ _ = False"

text \<open>
  \<^verbatim>\<open>values.hoursInWidebody || 0\<close>: the falsy values of \<^verbatim>\<open>number | undefined\<close> are
  \<^verbatim>\<open>undefined\<close>, zero and \<^verbatim>\<open>NaN\<close>.
\<close>

definition hours_or_zero64 :: "binary64 option \<Rightarrow> binary64" where
  "hours_or_zero64 h =
     (case h of None \<Rightarrow> Num 0 | Some x \<Rightarrow> if x = Num 0 \<or> x = NaN then Num 0 else x)"

subsection \<open>\<^verbatim>\<open>calculateTripValue\<close> on binary64 numbers\<close>

text \<open>\<^verbatim>\<open>FormValues\<close> and the result, with binary64 numbers.\<close>

record FormValues64 =
  internationalTrip64 :: bool
  seniorityYears64 :: binary64
  tafb64 :: binary64
  hourlyRate64 :: binary64
  credit64 :: binary64
  position64 :: position
  isMexicoCaribbean64 :: bool
  nightPayHours64 :: binary64
  aircraft64 :: "string option"
  hoursInWidebody64 :: "binary64 option"

record TripResult64 =
  perdiem64 :: binary64
  perdiemValue64 :: binary64
  positionCredit64 :: binary64
  internationalCredit64 :: binary64
  nightPayCredit64 :: binary64
  totalTripValue64 :: binary64

text \<open>
  The function, statement by statement as above, each operator of the source being the
  binary64 one and each decimal literal the binary64 value nearest to it.
\<close>

definition calculateTripValue64 :: "FormValues64 \<Rightarrow> TripResult64" where
  "calculateTripValue64 v =
     (let seniorityFactor = ffloor (fdiv (seniorityYears64 v) (Num 2));
          perdiem = (if internationalTrip64 v
                     then fadd (round64 2.7) (fmul seniorityFactor (round64 0.05))
                     else fadd (round64 2.2) (fmul seniorityFactor (round64 0.05)));
          perdiemValue = fmul (tafb64 v) perdiem;
          internationalCredit = (if internationalTrip64 v then fmul (credit64 v) (Num 2) else Num 0);
          positionCredit =
            (if position64 v = Purser then
               (if array_includes [''A319'', ''A320'', ''B737'']
                     (aircraft_or_empty (aircraft64 v)) then
                  (if isMexicoCaribbean64 v then fmul (credit64 v) (Num 2)
                   else fmul (credit64 v) (Num 1))
                else if array_includes [''B737-800'', ''B737-900'', ''B757'']
                          (aircraft_or_empty (aircraft64 v)) then
                  (if isMexicoCaribbean64 v then fmul (credit64 v) (Num 3)
                   else fmul (credit64 v) (Num 2))
                else if aircraft64 v = Some ''widebody'' then
                  (if isMexicoCaribbean64 v then fmul (credit64 v) (Num 4)
                   else fmul (credit64 v) (Num 3))
                else Num 0)
             else if position64 v = Galley then hours_or_zero64 (hoursInWidebody64 v)
             else if position64 v = Speaker then fmul (credit64 v) (round64 2.5)
             else Num 0);
          nightPayCredit = fdiv (nightPayHours64 v) (Num 2);
          baseValue = fmul (hourlyRate64 v) (credit64 v);
          totalTripValue =
            fadd (fadd (fadd (fadd baseValue perdiemValue) positionCredit) internationalCredit)
              nightPayCredit
      in \<lparr>perdiem64 = perdiem,
          perdiemValue64 = perdiemValue,
          positionCredit64 = positionCredit,
          internationalCredit64 = internationalCredit,
          nightPayCredit64 = nightPayCredit,
          totalTripValue64 = totalTripValue\<rparr>)"

text \<open>
  Validated values: every numeric field passes the check \<^verbatim>\<open>min(0)\<close> of the schema,
  which rejects what is below 0 and so lets \<^verbatim>\<open>Infinity\<close> through (the schema has no
  \<^verbatim>\<open>finite()\<close>); \<^verbatim>\<open>NaN\<close> is rejected before the check.
\<close>

definition validated64 :: "FormValues64 \<Rightarrow> bool" where
  "validated64 v =
     (fle (Num 0) (seniorityYears64 v) \<and> fle (Num 0) (tafb64 v) \<and>
      fle (Num 0) (hourlyRate64 v) \<and> fle (Num 0) (credit64 v) \<and>
      fle (Num 0) (nightPayHours64 v) \<and>
      (case hoursInWidebody64 v of None \<Rightarrow> True | Some h \<Rightarrow> fle (Num 0) h))"

text \<open>A finite number, within the range of binary64.\<close>

definition finite64 :: "binary64 \<Rightarrow> bool" where
  "finite64 d = (case d of Num a \<Rightarrow> \<bar>a\<bar> < 2 ^ 1024 | _ \<Rightarrow> False)"

definition finite_fields64 :: "FormValues64 \<Rightarrow> bool" where
  "finite_fields64 v =
     (finite64 (seniorityYears64 v) \<and> finite64 (tafb64 v) \<and> finite64 (hourlyRate64 v) \<and>
      finite64 (credit64 v) \<and> finite64 (nightPayHours64 v) \<and>
      (case hoursInWidebody64 v of None \<Rightarrow> True | Some h \<Rightarrow> finite64 h))"

section \<open>The form schema\<close>

text \<open>
  \<^verbatim>\<open>formSchema\<close> is a value built with the combinators of the zod library. The
  library is not part of the repository; the combinators the schema uses are modelled
  here after zod 3: what each of them accepts, the issue it raises and the message of
  the issue (the custom message where the schema gives one, the library's default
  otherwise).
\<close>

subsection \<open>What a form submits\<close>

text \<open>
  The values a field of the form can hold: the primitives. A submission is an object,
  read by key; a key the object does not have reads as \<^verbatim>\<open>undefined\<close>.
\<close>

datatype jsval = JUndefined | JNull | JBoolean bool | JNaN | JNumber real | JString string

type_synonym jsobject = "string \<Rightarrow> jsval"

text \<open>
  \<^verbatim>\<open>Number(x)\<close>, the coercion of \<^verbatim>\<open>z.coerce.number()\<close>. The conversion of a
  string is the runtime's (\<^verbatim>\<open>StringToNumber\<close> of ECMAScript) and is a parameter of the
  model: it gives the number the string denotes, or \<^term>\<open>None\<close> for \<^verbatim>\<open>NaN\<close>.
\<close>

type_synonym string_to_number = "string \<Rightarrow> real option"

fun Number :: "string_to_number \<Rightarrow> jsval \<Rightarrow> jsval" where
  "Number S JUndefined = JNaN"
| "Number S JNull = JNumber 0"
| "Number S (JBoolean b) = JNumber (if b then 1 else 0)"
| "Number S JNaN = JNaN"
| "Number S (JNumber x) = JNumber x"
| "Number S (JString s) = (case S s of None \<Rightarrow> JNaN | Some x \<Rightarrow> JNumber x)"

text \<open>
  A conversion for the examples: it reads a string of decimal digits as the number it
  writes and the empty string as 0, as ECMAScript does, and nothing else. The examples
  apply it to no string outside this fragment but \<^verbatim>\<open>"abc"\<close>, which is no number.
\<close>

fun digits_value :: "nat \<Rightarrow> string \<Rightarrow> nat option" where
  "digits_value acc [] = Some acc"
| "digits_value acc (c # cs) =
     (if 48 \<le> (of_char c :: nat) \<and> (of_char c :: nat) \<le> 57
      then digits_value (10 * acc + (of_char c - 48)) cs
      else None)"

definition StringToNumber_digits :: string_to_number where
  "StringToNumber_digits s = map_option real (digits_value 0 s)"

subsection \<open>Issues\<close>

datatype ZodIssueCode = invalid_type | invalid_enum_value | too_small

record ZodIssue =
  code :: ZodIssueCode
  path :: "string list"
  message :: string

text \<open>\<^verbatim>\<open>getParsedType\<close>: the name zod gives to the type of a value.\<close>

fun getParsedType :: "jsval \<Rightarrow> string" where
  "getParsedType JUndefined = ''undefined''"
| "getParsedType JNull = ''null''"
| "getParsedType (JBoolean b) = ''boolean''"
| "getParsedType JNaN = ''nan''"
| "getParsedType (JNumber x) = ''number''"
| "getParsedType (JString s) = ''string''"

text \<open>
  The issue for a value of the wrong type, with the message of zod's default error map:
  \<^verbatim>\<open>Required\<close> when the value is \<^verbatim>\<open>undefined\<close>, and
  \<^verbatim>\<open>Expected <expected>, received <type>\<close> otherwise.
\<close>

definition invalid_type_issue :: "string \<Rightarrow> jsval \<Rightarrow> string list \<Rightarrow> ZodIssue" where
  "invalid_type_issue expected received p =
     \<lparr>code = invalid_type, path = p,
      message = (if received = JUndefined then ''Required''
                 else ''Expected '' @ expected @ '', received '' @ getParsedType received)\<rparr>"

text \<open>\<^verbatim>\<open>util.joinValues\<close>: the options of an enum, quoted and separated by bars.\<close>

definition quoted :: "string \<Rightarrow> string" where
  "quoted v = CHR 0x27 # v @ [CHR 0x27]"

fun joinValues :: "string list \<Rightarrow> string" where
  "joinValues [] = []"
| "joinValues [v] = quoted v"
| "joinValues (v # w # ws) = quoted v @ '' | '' @ joinValues (w # ws)"

definition invalid_enum_value_issue :: "string list \<Rightarrow> string \<Rightarrow> string list \<Rightarrow> ZodIssue" where
  "invalid_enum_value_issue options received p =
     \<lparr>code = invalid_enum_value, path = p,
      message = ''Invalid enum value. Expected '' @ joinValues options
                  @ '', received '' @ quoted received\<rparr>"

subsection \<open>Schemas\<close>

text \<open>
  A check of a number schema: \<^verbatim>\<open>.min(value, message)\<close> is
  \<^verbatim>\<open>Min value True message\<close>, the flag saying that the bound is inclusive.
\<close>

datatype ZodNumberCheck = Min real bool string

text \<open>
  The schemas of the fields: \<^verbatim>\<open>z.boolean()\<close>, \<^verbatim>\<open>z.string()\<close>,
  \<^verbatim>\<open>z.enum([...])\<close>, a number schema with its \<^verbatim>\<open>coerce\<close> flag and its checks
  (\<^verbatim>\<open>z.coerce.number()\<close> is \<^verbatim>\<open>ZodNumber True []\<close>), and
  \<^verbatim>\<open>.optional()\<close>.
\<close>

datatype ZodType =
    ZodBoolean
  | ZodString
  | ZodEnum "string list"
  | ZodNumber bool "ZodNumberCheck list"
  | ZodOptional ZodType

datatype ZodObject = ZodObject (shape: "(string \<times> ZodType) list")

text \<open>
  A check of a number, at a path: a \<^verbatim>\<open>min\<close> check raises \<^verbatim>\<open>too_small\<close>, with
  the message of the check, when the number is below the bound (or at it, for an
  exclusive bound).
\<close>

fun check_number :: "real \<Rightarrow> string list \<Rightarrow> ZodNumberCheck \<Rightarrow> ZodIssue list" where
  "check_number x p (Min v inclusive m) =
     (if (if inclusive then x < v else x \<le> v)
      then [\<lparr>code = too_small, path = p, message = m\<rparr>]
      else [])"

text \<open>
  \<^verbatim>\<open>_parse\<close> of a schema on the value found at a path: the issues it raises, and the
  parsed value unless the parse is aborted. A number schema coerces first when it is told
  to, raises \<^verbatim>\<open>invalid_type\<close> on what is then not a number (\<^verbatim>\<open>NaN\<close> is none)
  and runs its checks otherwise; an optional schema accepts \<^verbatim>\<open>undefined\<close> as it is
  and hands anything else to the schema it wraps.
\<close>

fun parse :: "string_to_number \<Rightarrow> ZodType \<Rightarrow> string list \<Rightarrow> jsval \<Rightarrow> ZodIssue list \<times> jsval option" where
  "parse S ZodBoolean p d =
     (case d of JBoolean b \<Rightarrow> ([], Some d)
      | _ \<Rightarrow> ([invalid_type_issue ''boolean'' d p], None))"
| "parse S ZodString p d =
     (case d of JString s \<Rightarrow> ([], Some d)
      | _ \<Rightarrow> ([invalid_type_issue ''string'' d p], None))"
| "parse S (ZodEnum options) p d =
     (case d of
        JString s \<Rightarrow>
          if s \<in> set options then ([], Some d)
          else ([invalid_enum_value_issue options s p], None)
      | _ \<Rightarrow> ([invalid_type_issue (joinValues options) d p], None))"
| "parse S (ZodNumber coerce checks) p d =
     (let d' = (if coerce then Number S d else d) in
      case d' of
        JNumber x \<Rightarrow> (concat (map (check_number x p) checks), Some d')
      | _ \<Rightarrow> ([invalid_type_issue ''number'' d' p], None))"
| "parse S (ZodOptional t) p d =
     (if d = JUndefined then ([], Some JUndefined) else parse S t p d)"

text \<open>
  An object schema parses every key of its shape, in the order of the shape, each at the
  path of its key, and collects the issues of all of them.
\<close>

definition parse_keys ::
  "string_to_number \<Rightarrow> (string \<times> ZodType) list \<Rightarrow> jsobject
     \<Rightarrow> (string \<times> ZodIssue list \<times> jsval option) list" where
  "parse_keys S sh data = map (\<lambda>(k, t). (k, parse S t [k] (data k))) sh"

definition object_issues :: "string_to_number \<Rightarrow> ZodObject \<Rightarrow> jsobject \<Rightarrow> ZodIssue list" where
  "object_issues S schema data =
     concat (map (\<lambda>(k, r). fst r) (parse_keys S (shape schema) data))"

text \<open>
  The parsed object: the parsed value of every key of the shape; the keys the shape does
  not have are stripped.
\<close>

definition final_object :: "(string \<times> ZodIssue list \<times> jsval option) list \<Rightarrow> jsobject" where
  "final_object pairs k =
     (case map_of pairs k of Some (_, Some v) \<Rightarrow> v | _ \<Rightarrow> JUndefined)"

text \<open>
  \<^verbatim>\<open>safeParse\<close>: the parsed object when no issue was raised, and all the issues
  otherwise.
\<close>

definition safeParse :: "string_to_number \<Rightarrow> ZodObject \<Rightarrow> jsobject \<Rightarrow> ZodIssue list + jsobject" where
  "safeParse S schema data =
     (if object_issues S schema data = []
      then Inr (final_object (parse_keys S (shape schema) data))
      else Inl (object_issues S schema data))"

text \<open>
  \<^verbatim>\<open>result.error.issues\<close> of a result of \<^verbatim>\<open>safeParse\<close>; a success has none.
\<close>

definition error_issues :: "ZodIssue list + jsobject \<Rightarrow> ZodIssue list" where
  "error_issues result = (case result of Inl issues \<Rightarrow> issues | Inr _ \<Rightarrow> [])"

subsection \<open>\<^verbatim>\<open>formSchema\<close>\<close>

definition formSchema :: ZodObject where
  "formSchema = ZodObject
     [(''internationalTrip'', ZodBoolean),
      (''seniorityYears'',
         ZodNumber True [Min 0 True ''Seniority years must be a positive number'']),
      (''tafb'', ZodNumber True [Min 0 True ''TAFB must be a positive number'']),
      (''hourlyRate'', ZodNumber True [Min 0 True ''Hourly rate must be a positive number'']),
      (''credit'', ZodNumber True [Min 0 True ''Credit hours must be a positive number'']),
      (''position'', ZodEnum [''Speaker'', ''Galley'', ''Purser'']),
      (''isMexicoCaribbean'', ZodBoolean),
      (''nightPayHours'',
         ZodNumber True [Min 0 True ''Night pay hours must be a positive number'']),
      (''aircraft'', ZodOptional ZodString),
      (''hoursInWidebody'',
         ZodOptional
           (ZodNumber True [Min 0 True ''Hours in widebody must be a positive number'']))]"

text \<open>
  \<^verbatim>\<open>defaultValues\<close> of the form: what is submitted when nothing has been typed. The
  aircraft has no default.
\<close>

definition defaultValues :: jsobject where
  "defaultValues k =
     (if k = ''internationalTrip'' then JBoolean False
      else if k = ''seniorityYears'' then JNumber 0
      else if k = ''tafb'' then JNumber 0
      else if k = ''hourlyRate'' then JNumber 0
      else if k = ''credit'' then JNumber 0
      else if k = ''position'' then JString ''Speaker''
      else if k = ''isMexicoCaribbean'' then JBoolean False
      else if k = ''hoursInWidebody'' then JNumber 0
      else if k = ''nightPayHours'' then JNumber 0
      else JUndefined)"

section \<open>Example inputs\<close>

text \<open>
  Three sets of validated values: a domestic trip of a speaker, an international trip of
  a purser on a B757 to a regional destination, and a trip of a galley with 12 hours in a
  widebody.
\<close>

definition scenarioA :: FormValues where
  "scenarioA = \<lparr>internationalTrip = False, seniorityYears = 4, tafb = 10, hourlyRate = 50,
     credit = 20, position = Speaker, isMexicoCaribbean = False, nightPayHours = 4,
     aircraft = None, hoursInWidebody = None\<rparr>"

definition scenarioB :: FormValues where
  "scenarioB = \<lparr>internationalTrip = True, seniorityYears = 10, tafb = 20, hourlyRate = 60,
     credit = 30, position = Purser, isMexicoCaribbean = True, nightPayHours = 0,
     aircraft = Some ''B757'', hoursInWidebody = None\<rparr>"

definition scenarioC :: FormValues where
  "scenarioC = \<lparr>internationalTrip = True, seniorityYears = 3, tafb = 15, hourlyRate = 40,
     credit = 25, position = Galley, isMexicoCaribbean = True, nightPayHours = 6,
     aircraft = Some ''widebody'', hoursInWidebody = Some 12\<rparr>"

text \<open>
  The same on binary64 numbers: the default values of the form, and the domestic trip of
  a speaker.
\<close>

definition defaultValues64 :: FormValues64 where
  "defaultValues64 =
     \<lparr>internationalTrip64 = False, seniorityYears64 = Num 0, tafb64 = Num 0,
      hourlyRate64 = Num 0, credit64 = Num 0, position64 = Speaker,
      isMexicoCaribbean64 = False, nightPayHours64 = Num 0, aircraft64 = None,
      hoursInWidebody64 = Some (Num 0)\<rparr>"

definition scenarioA64 :: FormValues64 where
  "scenarioA64 = \<lparr>internationalTrip64 = False, seniorityYears64 = Num 4, tafb64 = Num 10,
     hourlyRate64 = Num 50, credit64 = Num 20, position64 = Speaker,
     isMexicoCaribbean64 = False, nightPayHours64 = Num 4, aircraft64 = None,
     hoursInWidebody64 = None\<rparr>"

section \<open>Properties of the calculation in exact arithmetic\<close>

subsection \<open>Two scenarios\<close>

text \<open>
  The two scenarios of the specification that give every figure of the result, in exact
  arithmetic.
\<close>

lemma calculateTripValue_scenarioA:
  "calculateTripValue scenarioA =
     \<lparr>perdiem = 2.30, perdiemValue = 23, positionCredit = 50, internationalCredit = 0,
      nightPayCredit = 2, totalTripValue = 1075\<rparr>"
  by (simp add: calculateTripValue_def scenarioA_def Let_def)

lemma calculateTripValue_scenarioB:
  "calculateTripValue scenarioB =
     \<lparr>perdiem = 2.95, perdiemValue = 59, positionCredit = 90, internationalCredit = 60,
      nightPayCredit = 0, totalTripValue = 2009\<rparr>"
  by (simp add: calculateTripValue_def scenarioB_def Let_def array_includes_def
        aircraft_or_empty_def)

subsection \<open>The total and the per-diem rate\<close>

text \<open>
  C1. The total is the sum of the base value \<^verbatim>\<open>hourlyRate * credit\<close> and the five
  components of the result, in the order of the source, and nothing else; the per-diem
  value is the per-diem rate times the time away from base, the international credit is
  twice the credit on an international trip and 0 otherwise, and the night pay credit is
  half the night pay hours.
\<close>

theorem total_is_sum_of_components:
  "totalTripValue (calculateTripValue values) =
     hourlyRate values * credit values
       + perdiemValue (calculateTripValue values)
       + positionCredit (calculateTripValue values)
       + internationalCredit (calculateTripValue values)
       + nightPayCredit (calculateTripValue values)
   \<and> perdiemValue (calculateTripValue values) =
       perdiem (calculateTripValue values) * tafb values
   \<and> internationalCredit (calculateTripValue values) =
       (if internationalTrip values then credit values * 2 else 0)
   \<and> nightPayCredit (calculateTripValue values) = nightPayHours values / 2"
  by (simp add: calculateTripValue_def Let_def)

text \<open>
  C2. The per-diem rate is 2.70 on an international trip and 2.20 otherwise, plus 0.05
  for every two full years of seniority.
\<close>

theorem perdiem_rate:
  "perdiem (calculateTripValue values) =
     (if internationalTrip values
      then 2.70 + real_of_int \<lfloor>seniorityYears values / 2\<rfloor> * 0.05
      else 2.20 + real_of_int \<lfloor>seniorityYears values / 2\<rfloor> * 0.05)"
  by (simp add: calculateTripValue_def Let_def)

text \<open>
  In exact arithmetic two more years of seniority raise the per-diem rate by exactly
  0.05; what the program computes is further down.
\<close>

lemma perdiem_step_exact:
  "perdiem (calculateTripValue (values\<lparr>seniorityYears := seniorityYears values + 2\<rparr>)) =
     perdiem (calculateTripValue values) + 0.05"
  by (simp add: calculateTripValue_def Let_def add_divide_distrib algebra_simps)

subsection \<open>The position credit\<close>

text \<open>
  C3. For a purser the position credit is the credit times a multiplier read off the
  aircraft and the destination: 2 or 1 (regional or not) on an A319, A320 or B737, 3 or 2
  on a B737-800, B737-900 or B757, 4 or 3 on a widebody, and the position credit is 0 for
  any other aircraft and when no aircraft is given.
\<close>

theorem purser_position_credit:
  "position values = Purser \<Longrightarrow>
   positionCredit (calculateTripValue values) =
     (if aircraft values \<in> {Some ''A319'', Some ''A320'', Some ''B737''} then
        credit values * (if isMexicoCaribbean values then 2 else 1)
      else if aircraft values \<in> {Some ''B737-800'', Some ''B737-900'', Some ''B757''} then
        credit values * (if isMexicoCaribbean values then 3 else 2)
      else if aircraft values = Some ''widebody'' then
        credit values * (if isMexicoCaribbean values then 4 else 3)
      else 0)"
  by (cases "aircraft values")
     (auto simp add: calculateTripValue_def Let_def array_includes_def aircraft_or_empty_def)

theorem purser_position_credit_witness:
  "position scenarioB = Purser \<and> positionCredit (calculateTripValue scenarioB) = 90"
  using purser_position_credit [of scenarioB] by (simp add: scenarioB_def)

text \<open>
  C4. For a galley the position credit is the hours in a widebody when they are given and
  0 when they are not; two galley inputs with the same hours in a widebody have the same
  position credit, whatever their credit, destination and aircraft.
\<close>

theorem galley_position_credit:
  "position v = Galley \<Longrightarrow> position w = Galley \<Longrightarrow> hoursInWidebody w = hoursInWidebody v \<Longrightarrow>
   positionCredit (calculateTripValue v) = (case hoursInWidebody v of Some h \<Rightarrow> h | None \<Rightarrow> 0)
   \<and> positionCredit (calculateTripValue w) = positionCredit (calculateTripValue v)"
  by (simp add: calculateTripValue_def Let_def hours_or_zero_def split: option.split)

theorem galley_position_credit_witness:
  "position scenarioC = Galley
   \<and> position (scenarioC\<lparr>credit := 7, isMexicoCaribbean := False, aircraft := Some ''A319''\<rparr>)
       = Galley
   \<and> positionCredit (calculateTripValue scenarioC) = 12
   \<and> positionCredit (calculateTripValue
        (scenarioC\<lparr>credit := 7, isMexicoCaribbean := False, aircraft := Some ''A319''\<rparr>)) = 12"
  using galley_position_credit [of scenarioC
      "scenarioC\<lparr>credit := 7, isMexicoCaribbean := False, aircraft := Some ''A319''\<rparr>"]
  by (simp add: scenarioC_def)

text \<open>
  C10. For a speaker the whole result is the same whatever the aircraft, the destination
  flag and the hours in a widebody are; for any position but purser it is the same
  whatever the aircraft and the destination flag are.
\<close>

theorem speaker_independence:
  "(position v = Speaker \<longrightarrow>
      calculateTripValue (v\<lparr>aircraft := a, isMexicoCaribbean := r, hoursInWidebody := h\<rparr>)
        = calculateTripValue v)
   \<and> (position v \<noteq> Purser \<longrightarrow>
      calculateTripValue (v\<lparr>aircraft := a, isMexicoCaribbean := r\<rparr>)
        = calculateTripValue v)"
  by (cases "position v") (simp_all add: calculateTripValue_def Let_def)

theorem speaker_independence_witness:
  "position scenarioA = Speaker \<and> position scenarioA \<noteq> Purser
   \<and> calculateTripValue
        (scenarioA\<lparr>aircraft := Some ''widebody'', isMexicoCaribbean := True,
           hoursInWidebody := Some 9\<rparr>) = calculateTripValue scenarioA
   \<and> calculateTripValue (scenarioA\<lparr>aircraft := Some ''widebody'', isMexicoCaribbean := True\<rparr>)
        = calculateTripValue scenarioA"
  using speaker_independence
    [where v = scenarioA and a = "Some ''widebody''" and r = True and h = "Some 9"]
  by (simp add: scenarioA_def)

section \<open>Properties of the schema\<close>

subsection \<open>The result and its issues\<close>

lemma error_issues_safeParse:
  "error_issues (safeParse S schema data) = object_issues S schema data"
  by (simp add: error_issues_def safeParse_def)

lemma safeParse_Inr_iff:
  "(\<exists>obj. safeParse S schema data = Inr obj) = (object_issues S schema data = [])"
  by (simp add: safeParse_def)

lemma object_issues_shape:
  "object_issues S (ZodObject sh) data = concat (map (\<lambda>(k, t). fst (parse S t [k] (data k))) sh)"
  by (simp add: object_issues_def parse_keys_def comp_def case_prod_unfold)

text \<open>The issues of the form schema, field by field, in the order of the schema.\<close>

lemma object_issues_formSchema:
  "object_issues S formSchema data =
     fst (parse S ZodBoolean [''internationalTrip''] (data ''internationalTrip''))
   @ fst (parse S (ZodNumber True [Min 0 True ''Seniority years must be a positive number''])
            [''seniorityYears''] (data ''seniorityYears''))
   @ fst (parse S (ZodNumber True [Min 0 True ''TAFB must be a positive number''])
            [''tafb''] (data ''tafb''))
   @ fst (parse S (ZodNumber True [Min 0 True ''Hourly rate must be a positive number''])
            [''hourlyRate''] (data ''hourlyRate''))
   @ fst (parse S (ZodNumber True [Min 0 True ''Credit hours must be a positive number''])
            [''credit''] (data ''credit''))
   @ fst (parse S (ZodEnum [''Speaker'', ''Galley'', ''Purser'']) [''position''] (data ''position''))
   @ fst (parse S ZodBoolean [''isMexicoCaribbean''] (data ''isMexicoCaribbean''))
   @ fst (parse S (ZodNumber True [Min 0 True ''Night pay hours must be a positive number''])
            [''nightPayHours''] (data ''nightPayHours''))
   @ fst (parse S (ZodOptional ZodString) [''aircraft''] (data ''aircraft''))
   @ fst (parse S (ZodOptional
              (ZodNumber True [Min 0 True ''Hours in widebody must be a positive number'']))
            [''hoursInWidebody''] (data ''hoursInWidebody''))"
  by (simp add: object_issues_def parse_keys_def formSchema_def del: parse.simps)

subsection \<open>Every issue of a field carries the path of the field\<close>

lemma check_number_path: "i \<in> set (check_number x p c) \<Longrightarrow> path i = p"
  by (cases c) (auto split: if_splits)

lemma parse_path: "i \<in> set (fst (parse S t p d)) \<Longrightarrow> path i = p"
  by (induction S t p d rule: parse.induct)
     (auto simp add: invalid_type_issue_def invalid_enum_value_issue_def Let_def
        split: jsval.splits if_splits dest: check_number_path)

lemma filter_path_parse:
  "filter (\<lambda>i. path i = q) (fst (parse S t p d)) = (if p = q then fst (parse S t p d) else [])"
  by (auto simp add: filter_empty_conv filter_id_conv dest: parse_path)

lemma filter_other_path_parse:
  "filter (\<lambda>i. path i \<noteq> q) (fst (parse S t p d)) =
     (if p = q then [] else fst (parse S t p d))"
  by (auto simp add: filter_empty_conv filter_id_conv dest: parse_path)

text \<open>
  In a shape with no key twice, the issues at the path of a key are those of the schema
  of that key.
\<close>

lemma issues_at_key:
  "distinct (map fst sh) \<Longrightarrow>
   filter (\<lambda>i. path i = [k]) (object_issues S (ZodObject sh) data) =
     (case map_of sh k of None \<Rightarrow> [] | Some t \<Rightarrow> fst (parse S t [k] (data k)))"
proof (induction sh)
  case Nil
  then show ?case by (simp add: object_issues_shape)
next
  case (Cons a sh)
  obtain k' t' where a: "a = (k', t')" by (cases a)
  from Cons.prems have d: "distinct (map fst sh)" and n: "k' \<notin> fst ` set sh"
    by (simp_all add: a)
  have IH: "filter (\<lambda>i. path i = [k]) (object_issues S (ZodObject sh) data) =
     (case map_of sh k of None \<Rightarrow> [] | Some t \<Rightarrow> fst (parse S t [k] (data k)))"
    by (rule Cons.IH [OF d])
  show ?case
  proof (cases "k' = k")
    case True
    with n have "map_of sh k = None" by (simp add: map_of_eq_None_iff)
    with IH True show ?thesis
      by (simp add: a object_issues_shape filter_path_parse del: parse.simps)
  next
    case False
    with IH show ?thesis
      by (simp add: a object_issues_shape filter_path_parse del: parse.simps)
  qed
qed

lemma distinct_formSchema: "distinct (map fst (shape formSchema))"
  by (simp add: formSchema_def)

lemma formSchema_issues_at_key:
  "filter (\<lambda>i. path i = [k]) (object_issues S formSchema data) =
     (case map_of (shape formSchema) k of None \<Rightarrow> []
      | Some t \<Rightarrow> fst (parse S t [k] (data k)))"
  using issues_at_key [OF distinct_formSchema, of k S data] by simp

subsection \<open>The numeric fields\<close>

text \<open>
  What \<^verbatim>\<open>z.coerce.number().min(0, m)\<close> reports: nothing for a number that is at
  least 0, the issue with the message \<open>m\<close> for a negative number, and the issue of the
  wrong type, with the default message, for what coerces to \<^verbatim>\<open>NaN\<close>.
\<close>

lemma number_field_issues:
  "fst (parse S (ZodNumber True [Min 0 True m]) p d) =
     (case Number S d of
        JNumber x \<Rightarrow> if x < 0 then [\<lparr>code = too_small, path = p, message = m\<rparr>] else []
      | _ \<Rightarrow> [\<lparr>code = invalid_type, path = p, message = ''Expected number, received nan''\<rparr>])"
  by (cases d) (simp_all add: invalid_type_issue_def split: option.split)

lemma optional_issues:
  "fst (parse S (ZodOptional t) p d) = (if d = JUndefined then [] else fst (parse S t p d))"
  by simp

lemma negative_key_one_issue:
  assumes "k \<in> set [''seniorityYears'', ''tafb'', ''hourlyRate'', ''credit'',
      ''nightPayHours'', ''hoursInWidebody'']"
    and "Number S (data k) = JNumber x" and "x < 0"
  shows "length (filter (\<lambda>i. path i = [k]) (object_issues S formSchema data)) = 1"
proof -
  have *: "filter (\<lambda>i. path i = [k]) (object_issues S formSchema data) =
     (case map_of (shape formSchema) k of None \<Rightarrow> []
      | Some t \<Rightarrow> fst (parse S t [k] (data k)))"
    by (rule formSchema_issues_at_key)
  from assms(2) have u: "data k \<noteq> JUndefined" by auto
  from assms(1) have "k = ''seniorityYears'' \<or> k = ''tafb'' \<or> k = ''hourlyRate''
      \<or> k = ''credit'' \<or> k = ''nightPayHours'' \<or> k = ''hoursInWidebody''"
    by (simp only: list.set insert_iff empty_iff simp_thms)
  then show ?thesis
    unfolding * using assms(2,3) u
    by (elim disjE; hypsubst)
       (simp_all add: formSchema_def number_field_issues optional_issues del: parse.simps)
qed

subsection \<open>The issues for negative numbers\<close>

lemma too_small_number:
  "filter (\<lambda>i. code i = too_small) (fst (parse S (ZodNumber True [Min 0 True m]) p d)) =
     (if \<exists>x. Number S d = JNumber x \<and> x < 0
      then [\<lparr>code = too_small, path = p, message = m\<rparr>] else [])"
  by (simp add: number_field_issues del: parse.simps split: jsval.split)

lemma too_small_optional_number:
  "filter (\<lambda>i. code i = too_small)
      (fst (parse S (ZodOptional (ZodNumber True [Min 0 True m])) p d)) =
     (if \<exists>x. Number S d = JNumber x \<and> x < 0
      then [\<lparr>code = too_small, path = p, message = m\<rparr>] else [])"
  by (cases "d = JUndefined") (simp_all add: optional_issues too_small_number del: parse.simps)

lemma too_small_boolean:
  "filter (\<lambda>i. code i = too_small) (fst (parse S ZodBoolean p d)) = []"
  by (cases d) (simp_all add: invalid_type_issue_def)

lemma too_small_string:
  "filter (\<lambda>i. code i = too_small) (fst (parse S (ZodOptional ZodString) p d)) = []"
  by (cases d) (simp_all add: invalid_type_issue_def)

lemma too_small_enum:
  "filter (\<lambda>i. code i = too_small) (fst (parse S (ZodEnum options) p d)) = []"
  by (cases d) (simp_all add: invalid_type_issue_def invalid_enum_value_issue_def)

lemma if_single_append: "(if c then [x] else []) @ ys = (if c then x # ys else ys)"
  by simp

lemma map_if: "map f (if c then xs else ys) = (if c then map f xs else map f ys)"
  by simp

lemma too_small_formSchema:
  "map path (filter (\<lambda>i. code i = too_small) (object_issues S formSchema data)) =
     map (\<lambda>k. [k])
       (filter (\<lambda>k. \<exists>x. Number S (data k) = JNumber x \<and> x < 0)
          [''seniorityYears'', ''tafb'', ''hourlyRate'', ''credit'', ''nightPayHours'',
           ''hoursInWidebody''])"
  by (simp add: object_issues_formSchema too_small_number too_small_optional_number
        too_small_boolean too_small_string too_small_enum if_single_append map_if
      del: parse.simps split del: if_split cong: if_cong)

text \<open>
  C6. A submission in which a numeric field coerces to a negative number is rejected,
  and the issues of the one call name every such field: the issues for too small a
  number are those of the fields with a negative number, one each and in the order of the
  schema, and a field with a negative number has no other issue.
\<close>

theorem negative_fields_all_reported:
  assumes "viol = filter (\<lambda>k. \<exists>x. Number S (data k) = JNumber x \<and> x < 0)
      [''seniorityYears'', ''tafb'', ''hourlyRate'', ''credit'', ''nightPayHours'',
       ''hoursInWidebody'']"
    and "viol \<noteq> []"
  shows "\<exists>issues. safeParse S formSchema data = Inl issues
     \<and> map path (filter (\<lambda>i. code i = too_small) issues) = map (\<lambda>k. [k]) viol
     \<and> (\<forall>k\<in>set viol. length (filter (\<lambda>i. path i = [k]) issues) = 1)"
proof -
  let ?issues = "object_issues S formSchema data"
  have paths: "map path (filter (\<lambda>i. code i = too_small) ?issues) = map (\<lambda>k. [k]) viol"
    unfolding assms(1) by (rule too_small_formSchema)
  with assms(2) have "?issues \<noteq> []" by auto
  then have failed: "safeParse S formSchema data = Inl ?issues"
    by (simp add: safeParse_def)
  have one: "length (filter (\<lambda>i. path i = [k]) ?issues) = 1" if "k \<in> set viol" for k
  proof -
    from that have k: "k \<in> set [''seniorityYears'', ''tafb'', ''hourlyRate'', ''credit'',
        ''nightPayHours'', ''hoursInWidebody'']"
      and "\<exists>x. Number S (data k) = JNumber x \<and> x < 0"
      unfolding assms(1) by (simp_all only: set_filter mem_Collect_eq)
    then obtain x where "Number S (data k) = JNumber x" and "x < 0" by blast
    with k show ?thesis by (rule negative_key_one_issue)
  qed
  from failed paths one show ?thesis by blast
qed

theorem negative_fields_all_reported_witness:
  "\<exists>issues. safeParse StringToNumber_digits formSchema
       (defaultValues(''seniorityYears'' := JNumber (- 1), ''tafb'' := JNumber (- 5))) = Inl issues
     \<and> map path (filter (\<lambda>i. code i = too_small) issues) = [[''seniorityYears''], [''tafb'']]
     \<and> length (filter (\<lambda>i. path i = [''seniorityYears'']) issues) = 1
     \<and> length (filter (\<lambda>i. path i = [''tafb'']) issues) = 1"
  using negative_fields_all_reported [of "[''seniorityYears'', ''tafb'']" StringToNumber_digits
      "defaultValues(''seniorityYears'' := JNumber (- 1), ''tafb'' := JNumber (- 5))"]
  by (simp add: defaultValues_def)

text \<open>The submission of the specification with two negative fields, in full.\<close>

lemma two_negative_fields:
  "safeParse StringToNumber_digits formSchema
      (defaultValues(''seniorityYears'' := JNumber (- 1), ''tafb'' := JNumber (- 5)))
     = Inl [\<lparr>code = too_small, path = [''seniorityYears''],
              message = ''Seniority years must be a positive number''\<rparr>,
            \<lparr>code = too_small, path = [''tafb''],
              message = ''TAFB must be a positive number''\<rparr>]"
  by (simp add: safeParse_def object_issues_formSchema defaultValues_def)

subsection \<open>The message of a numeric field\<close>

text \<open>
  C7, as the schema has it. The issues at a numeric field are: none when the value
  coerces to a number that is at least 0 (0 included), and none for the hours in a
  widebody that are not given; one issue with the message
  \<^verbatim>\<open><label> must be a positive number\<close> when the value coerces to a negative number;
  and one issue with the default message \<^verbatim>\<open>Expected number, received nan\<close> of the
  library when the coercion fails. The schema gives its message to the \<^verbatim>\<open>min\<close> check
  only.
\<close>

theorem numeric_field_error:
  assumes "(k, label) \<in> set [(''seniorityYears'', ''Seniority years''), (''tafb'', ''TAFB''),
      (''hourlyRate'', ''Hourly rate''), (''credit'', ''Credit hours''),
      (''nightPayHours'', ''Night pay hours''), (''hoursInWidebody'', ''Hours in widebody'')]"
  shows "filter (\<lambda>i. path i = [k]) (error_issues (safeParse S formSchema data)) =
    (if k = ''hoursInWidebody'' \<and> data k = JUndefined then []
     else case Number S (data k) of
         JNumber x \<Rightarrow>
           if x < 0
           then [\<lparr>code = too_small, path = [k],
                   message = label @ '' must be a positive number''\<rparr>]
           else []
       | _ \<Rightarrow> [\<lparr>code = invalid_type, path = [k],
                  message = ''Expected number, received nan''\<rparr>])"
proof -
  have *: "filter (\<lambda>i. path i = [k]) (error_issues (safeParse S formSchema data)) =
     (case map_of (shape formSchema) k of None \<Rightarrow> []
      | Some t \<Rightarrow> fst (parse S t [k] (data k)))"
    by (simp only: error_issues_safeParse formSchema_issues_at_key)
  from assms have "k = ''seniorityYears'' \<and> label = ''Seniority years''
      \<or> k = ''tafb'' \<and> label = ''TAFB''
      \<or> k = ''hourlyRate'' \<and> label = ''Hourly rate''
      \<or> k = ''credit'' \<and> label = ''Credit hours''
      \<or> k = ''nightPayHours'' \<and> label = ''Night pay hours''
      \<or> k = ''hoursInWidebody'' \<and> label = ''Hours in widebody''"
    by (simp only: list.set insert_iff empty_iff prod.inject simp_thms)
  then show ?thesis
    unfolding *
    by (elim disjE conjE; hypsubst)
       (simp_all add: formSchema_def number_field_issues optional_issues del: parse.simps
          cong: jsval.case_cong if_cong)
qed

theorem numeric_field_error_witness:
  "(''seniorityYears'', ''Seniority years'') \<in> set [(''seniorityYears'', ''Seniority years''),
      (''tafb'', ''TAFB''), (''hourlyRate'', ''Hourly rate''), (''credit'', ''Credit hours''),
      (''nightPayHours'', ''Night pay hours''), (''hoursInWidebody'', ''Hours in widebody'')]
   \<and> filter (\<lambda>i. path i = [''seniorityYears''])
        (error_issues (safeParse StringToNumber_digits formSchema
           (defaultValues(''seniorityYears'' := JNumber (- 1))))) =
       [\<lparr>code = too_small, path = [''seniorityYears''],
         message = ''Seniority years must be a positive number''\<rparr>]"
  using numeric_field_error [of "''seniorityYears''" "''Seniority years''" StringToNumber_digits
      "defaultValues(''seniorityYears'' := JNumber (- 1))"]
  by simp

lemma digits_abc: "StringToNumber_digits ''abc'' = None"
  by (simp add: StringToNumber_digits_def)

text \<open>
  C7 as it is written, with the message of the schema in both cases, fails where a
  coercion fails: with \<^verbatim>\<open>"abc"\<close> for the seniority years, the one issue carries the
  default message, not \<^verbatim>\<open>Seniority years must be a positive number\<close>.
\<close>

theorem coercion_failure_message:
  "safeParse StringToNumber_digits formSchema (defaultValues(''seniorityYears'' := JString ''abc''))
     = Inl [\<lparr>code = invalid_type, path = [''seniorityYears''],
              message = ''Expected number, received nan''\<rparr>]
   \<and> ''Expected number, received nan'' \<noteq> ''Seniority years must be a positive number''"
  by (simp add: safeParse_def object_issues_formSchema defaultValues_def digits_abc
        invalid_type_issue_def)

text \<open>The default values, all numbers 0, are accepted.\<close>

lemma zero_is_accepted:
  "\<exists>obj. safeParse StringToNumber_digits formSchema defaultValues = Inr obj"
  by (simp add: safeParse_def object_issues_formSchema defaultValues_def)

subsection \<open>The optional fields\<close>

lemma omit_aircraft:
  "object_issues S formSchema (data(''aircraft'' := JUndefined)) =
     filter (\<lambda>i. path i \<noteq> [''aircraft'']) (object_issues S formSchema data)"
  by (simp add: object_issues_formSchema filter_other_path_parse optional_issues
      del: parse.simps)

lemma omit_hoursInWidebody:
  "object_issues S formSchema (data(''hoursInWidebody'' := JUndefined)) =
     filter (\<lambda>i. path i \<noteq> [''hoursInWidebody'']) (object_issues S formSchema data)"
  by (simp add: object_issues_formSchema filter_other_path_parse optional_issues
      del: parse.simps)

text \<open>
  C8. Leaving out the aircraft, the hours in a widebody or both raises no issue,
  whatever the position is: the issues of the submission without them are the issues
  that the other fields raise, and the submission is accepted when there is none.
\<close>

theorem omitted_optional_fields:
  "error_issues (safeParse S formSchema (data(''aircraft'' := JUndefined))) =
     filter (\<lambda>i. path i \<noteq> [''aircraft'']) (error_issues (safeParse S formSchema data))
   \<and> error_issues (safeParse S formSchema (data(''hoursInWidebody'' := JUndefined))) =
     filter (\<lambda>i. path i \<noteq> [''hoursInWidebody'']) (error_issues (safeParse S formSchema data))
   \<and> error_issues (safeParse S formSchema
        (data(''aircraft'' := JUndefined, ''hoursInWidebody'' := JUndefined))) =
     filter (\<lambda>i. path i \<noteq> [''aircraft''] \<and> path i \<noteq> [''hoursInWidebody''])
       (error_issues (safeParse S formSchema data))
   \<and> (\<exists>obj. safeParse S formSchema data' = Inr obj) =
       (error_issues (safeParse S formSchema data') = [])"
  by (simp only: error_issues_safeParse omit_aircraft omit_hoursInWidebody filter_filter
        safeParse_Inr_iff simp_thms)

text \<open>A purser with no aircraft and a galley with no hours in a widebody are accepted.\<close>

lemma purser_without_aircraft_is_accepted:
  "\<exists>obj. safeParse StringToNumber_digits formSchema
      (defaultValues(''position'' := JString ''Purser'', ''credit'' := JString ''30'')) = Inr obj"
  by (simp add: safeParse_def object_issues_formSchema defaultValues_def
        StringToNumber_digits_def)

lemma galley_without_hours_is_accepted:
  "\<exists>obj. safeParse StringToNumber_digits formSchema
      (defaultValues(''position'' := JString ''Galley'', ''hoursInWidebody'' := JUndefined))
        = Inr obj"
  by (simp add: safeParse_def object_issues_formSchema defaultValues_def)

section \<open>Binary64 arithmetic\<close>

subsection \<open>Rounding to an integer, powers of two, binades\<close>

lemma rne_of_int [simp]: "rne (of_int n) = n"
  by (simp add: rne_def)

lemma rne_cases:
  "rne y = \<lfloor>y\<rfloor> \<and> y - of_int \<lfloor>y\<rfloor> \<le> 1 / 2 \<or> rne y = \<lfloor>y\<rfloor> + 1 \<and> 1 / 2 \<le> y - of_int \<lfloor>y\<rfloor>"
  by (auto simp add: rne_def Let_def)

lemma rne_error: "\<bar>of_int (rne y) - y\<bar> \<le> 1 / 2"
  using rne_cases [of y] by (auto; linarith)

lemma rne_0 [simp]: "rne 0 = 0"
  using rne_of_int [of 0] by simp

lemma rne_mono:
  assumes "x \<le> y"
  shows "rne x \<le> rne y"
proof (cases "\<lfloor>x\<rfloor> = \<lfloor>y\<rfloor>")
  case True
  with assms show ?thesis
    by (auto simp add: rne_def Let_def)
next
  case False
  with assms have "\<lfloor>x\<rfloor> + 1 \<le> \<lfloor>y\<rfloor>"
    using floor_mono [of x y] by linarith
  moreover have "rne x \<le> \<lfloor>x\<rfloor> + 1" and "\<lfloor>y\<rfloor> \<le> rne y"
    using rne_cases [of x] rne_cases [of y] by auto
  ultimately show ?thesis by linarith
qed

lemma rne_nonneg: "0 \<le> y \<Longrightarrow> 0 \<le> rne y"
  using rne_mono [of 0 y] by simp

lemma p2_pos [simp]: "0 < (2::real) powi k"
  by simp

lemma p2_add: "(2::real) powi (a + b) = 2 powi a * 2 powi b"
  by (rule power_int_add) simp

lemma p2_le: "a \<le> b \<Longrightarrow> (2::real) powi a \<le> 2 powi b"
  by (rule power_int_increasing) simp_all

lemma p2_less: "a < b \<Longrightarrow> (2::real) powi a < 2 powi b"
  by (rule power_int_strict_increasing) simp_all

lemma p2_le_D: "(2::real) powi a \<le> 2 powi b \<Longrightarrow> a \<le> b"
  using p2_less [of b a] by (cases "a \<le> b") simp_all

lemma p2_less_D: "(2::real) powi a < 2 powi b \<Longrightarrow> a < b"
  using p2_le [of b a] by (cases "a < b") simp_all

lemma p2_divide: "x / (2::real) powi e = x * 2 powi (- e)"
  by (simp add: power_int_minus field_simps)

lemma p2_of_int: "0 \<le> n \<Longrightarrow> (2::real) powi n = of_int (2 ^ nat n)"
  by (simp add: power_int_def)

lemma p2_nat: "0 \<le> n \<Longrightarrow> (2::real) powi n = 2 ^ nat n"
  by (simp add: power_int_def)

lemma p2_neg_nat: "0 \<le> n \<Longrightarrow> (2::real) powi (- n) = 1 / 2 ^ nat n"
  by (simp add: power_int_minus p2_nat field_simps)

lemma real_pow2_le_int: "2 ^ k \<le> (n::int) \<Longrightarrow> (2::real) ^ k \<le> real_of_int n"
  by (metis of_int_le_iff of_int_numeral of_int_power)

lemma int_le_real_pow2: "(n::int) \<le> 2 ^ k \<Longrightarrow> real_of_int n \<le> 2 ^ k"
  by (metis of_int_le_iff of_int_numeral of_int_power)

lemma binade_bounds:
  assumes "0 < x"
  shows "2 powi binade x \<le> x" and "x < 2 powi (binade x + 1)"
proof -
  have "2 powi binade x \<le> x \<and> x < 2 powi (binade x + 1)"
  proof (cases "1 \<le> x")
    case True
    define n where "n = \<lfloor>x\<rfloor>"
    from True have n: "0 < n" by (simp add: n_def)
    from bitlen_bounds [OF n] have lo: "2 ^ nat (bitlen n - 1) \<le> n"
      and hi: "n < 2 ^ nat (bitlen n)" by simp_all
    from n have bl: "1 \<le> bitlen n" by (auto simp add: bitlen_alt_def)
    have b: "binade x = bitlen n - 1"
      using True by (simp add: binade_def n_def)
    have "(2::real) ^ nat (bitlen n - 1) \<le> real_of_int n"
      using lo by (rule real_pow2_le_int)
    moreover have "real_of_int n \<le> x" by (simp add: n_def)
    ultimately have "(2::real) ^ nat (bitlen n - 1) \<le> x" by linarith
    then have 1: "2 powi (bitlen n - 1) \<le> x"
      using bl by (simp add: p2_nat)
    from hi have "n + 1 \<le> 2 ^ nat (bitlen n)" by simp
    then have "real_of_int (n + 1) \<le> 2 ^ nat (bitlen n)"
      by (rule int_le_real_pow2)
    moreover have "x < real_of_int (n + 1)" by (simp add: n_def)
    ultimately have "x < 2 ^ nat (bitlen n)" by linarith
    then have 2: "x < 2 powi (bitlen n)"
      using bl by (simp add: p2_nat)
    from 1 2 show ?thesis by (simp add: b)
  next
    case False
    define y where "y = 1 / x"
    define m where "m = \<lceil>y\<rceil> - 1"
    from False assms have y: "1 < y" by (simp add: y_def)
    then have "2 \<le> \<lceil>y\<rceil>" by (simp add: le_ceiling_iff)
    then have m: "0 < m" by (simp add: m_def)
    from bitlen_bounds [OF m] have lo: "2 ^ nat (bitlen m - 1) \<le> m"
      and hi: "m < 2 ^ nat (bitlen m)" by simp_all
    from m have bl: "1 \<le> bitlen m" by (auto simp add: bitlen_alt_def)
    have b: "binade x = - bitlen m"
      using False by (simp add: binade_def m_def y_def)
    have my: "real_of_int m < y" and ym: "y \<le> real_of_int m + 1"
      unfolding m_def by linarith+
    from hi have "m + 1 \<le> 2 ^ nat (bitlen m)" by simp
    then have "real_of_int (m + 1) \<le> 2 ^ nat (bitlen m)"
      by (rule int_le_real_pow2)
    with ym have "y \<le> 2 ^ nat (bitlen m)" by simp
    then have "1 / 2 ^ nat (bitlen m) \<le> x"
      using assms by (simp add: y_def field_simps)
    then have 1: "2 powi (- bitlen m) \<le> x"
      using bl by (simp add: p2_neg_nat)
    have "(2::real) ^ nat (bitlen m - 1) \<le> real_of_int m"
      using lo by (rule real_pow2_le_int)
    with my have "2 ^ nat (bitlen m - 1) < y" by linarith
    then have "x < 1 / 2 ^ nat (bitlen m - 1)"
      using assms by (simp add: y_def field_simps)
    moreover have "(2::real) powi (- bitlen m + 1) = 1 / 2 ^ nat (bitlen m - 1)"
      using bl p2_neg_nat [of "bitlen m - 1"] by simp
    ultimately have 2: "x < 2 powi (- bitlen m + 1)" by simp
    from 1 2 show ?thesis by (simp add: b)
  qed
  then show "2 powi binade x \<le> x" and "x < 2 powi (binade x + 1)" by simp_all
qed

lemma binade_eq:
  assumes "2 powi k \<le> x" and "x < 2 powi (k + 1)"
  shows "binade x = k"
proof -
  from assms(1) p2_pos [of k] have x: "0 < x" by linarith
  from binade_bounds [OF x] assms have 1: "2 powi binade x < (2::real) powi (k + 1)"
    and 2: "2 powi k < (2::real) powi (binade x + 1)" by linarith+
  from 1 have "binade x < k + 1" by (rule p2_less_D)
  moreover from 2 have "k < binade x + 1" by (rule p2_less_D)
  ultimately show ?thesis by simp
qed

lemma binade_mono:
  assumes "0 < x" and "x \<le> y"
  shows "binade x \<le> binade y"
proof -
  from assms have y: "0 < y" by simp
  from binade_bounds(1) [OF assms(1)] binade_bounds(2) [OF y] assms(2)
  have "2 powi binade x < (2::real) powi (binade y + 1)" by linarith
  then have "binade x < binade y + 1" by (rule p2_less_D)
  then show ?thesis by simp
qed

subsection \<open>Rounding to binary64\<close>

lemma exponent64_ge: "- 1074 \<le> exponent64 x"
  by (simp add: exponent64_def)

lemma exponent64_cases:
  "exponent64 x = binade \<bar>x\<bar> - 52 \<and> - 1022 \<le> binade \<bar>x\<bar>
   \<or> exponent64 x = - 1074 \<and> binade \<bar>x\<bar> < - 1022"
proof -
  define k where "k = binade \<bar>x\<bar>"
  have "max (k - 52) (- 1074) = k - 52 \<and> - 1022 \<le> k \<or> max (k - 52) (- 1074) = - 1074 \<and> k < - 1022"
    by linarith
  then show ?thesis
    unfolding exponent64_def k_def .
qed

text \<open>Below the next power of two above it, in units of the last place.\<close>

lemma below_53_bits:
  assumes "x \<noteq> 0"
  shows "\<bar>x\<bar> < 2 powi (exponent64 x + 53)"
proof -
  from assms have "\<bar>x\<bar> < 2 powi (binade \<bar>x\<bar> + 1)"
    by (intro binade_bounds) simp
  also have "\<dots> \<le> 2 powi (exponent64 x + 53)"
    by (rule p2_le) (simp add: exponent64_def)
  finally show ?thesis .
qed

lemma rounded_0 [simp]: "rounded 0 = 0"
  by (simp add: rounded_def)

lemma rounded_nonneg: "0 \<le> x \<Longrightarrow> 0 \<le> rounded x"
  by (simp add: rounded_def rne_nonneg)

lemma rounded_exact:
  assumes "x / 2 powi exponent64 x = of_int m"
  shows "rounded x = x"
proof (cases "x = 0")
  case True
  then show ?thesis by simp
next
  case False
  have "x = of_int m * 2 powi exponent64 x"
    using assms by (simp add: field_simps)
  with False assms show ?thesis
    by (simp add: rounded_def)
qed

text \<open>A number of at most 53 bits above the least exponent is a binary64 value.\<close>

lemma rounded_representable:
  assumes m: "\<bar>m\<bar> \<le> 2 ^ 53" and j: "- 1074 \<le> j"
  shows "rounded (of_int m * 2 powi j) = of_int m * 2 powi j"
proof (cases "m = 0")
  case True
  then show ?thesis by simp
next
  case False
  let ?x = "real_of_int m * 2 powi j"
  let ?k = "binade \<bar>?x\<bar>"
  from False have x0: "0 < \<bar>?x\<bar>" by simp
  have absx: "\<bar>?x\<bar> = real_of_int \<bar>m\<bar> * 2 powi j"
    by (simp add: abs_mult)
  have "real_of_int \<bar>m\<bar> \<le> 2 ^ 53"
    using m by (metis of_int_le_iff of_int_numeral of_int_power)
  then have le: "\<bar>?x\<bar> \<le> 2 powi (j + 53)"
    unfolding absx p2_add by (simp add: mult.commute)
  show ?thesis
  proof (cases "\<bar>?x\<bar> = 2 powi (j + 53)")
    case True
    then have k: "?k = j + 53"
      by (intro binade_eq) (simp_all add: p2_less)
    with j have e: "exponent64 ?x = j + 1"
      by (simp add: exponent64_def)
    from True have "real_of_int \<bar>m\<bar> = 2 ^ 53"
      unfolding absx p2_add by simp
    then have "\<bar>m\<bar> = 2 ^ 53"
      by (metis of_int_eq_iff of_int_numeral of_int_power)
    then have "m = 2 ^ 53 \<or> m = - (2 ^ 53)" by linarith
    then have "m = 2 * (m div 2)" by auto
    then have "real_of_int m = 2 * real_of_int (m div 2)"
      by (metis of_int_mult of_int_numeral)
    then have "?x / 2 powi exponent64 ?x = of_int (m div 2)"
      unfolding e p2_add by simp
    then show ?thesis by (rule rounded_exact)
  next
    case False
    with le have "\<bar>?x\<bar> < 2 powi (j + 53)" by simp
    moreover from x0 have "2 powi ?k \<le> \<bar>?x\<bar>"
      by (rule binade_bounds)
    ultimately have "2 powi ?k < (2::real) powi (j + 53)" by simp
    then have "?k < j + 53" by (rule p2_less_D)
    with j have e: "exponent64 ?x \<le> j"
      by (simp add: exponent64_def)
    then have "(2::real) powi (j - exponent64 ?x) = of_int (2 ^ nat (j - exponent64 ?x))"
      by (intro p2_of_int) simp
    moreover have "?x / 2 powi exponent64 ?x = of_int m * 2 powi (j - exponent64 ?x)"
      by (simp add: power_int_diff)
    ultimately have "?x / 2 powi exponent64 ?x = of_int (m * 2 ^ nat (j - exponent64 ?x))"
      by simp
    then show ?thesis by (rule rounded_exact)
  qed
qed

lemma rounded_p2: "- 1074 \<le> k \<Longrightarrow> rounded (2 powi k) = 2 powi k"
  using rounded_representable [of 1 k] by simp

lemma rounded_of_nat:
  assumes "n \<le> 2 ^ 53"
  shows "rounded (of_nat n) = of_nat n"
proof -
  from assms have "\<bar>int n\<bar> \<le> 2 ^ 53"
    by (metis abs_of_nat of_nat_le_iff of_nat_numeral of_nat_power)
  from rounded_representable [OF this, of 0] show ?thesis by simp
qed

lemma rounded_half_of_nat:
  assumes "n \<le> 2 ^ 53"
  shows "rounded (of_nat n / 2) = of_nat n / 2"
proof -
  from assms have "\<bar>int n\<bar> \<le> 2 ^ 53"
    by (metis abs_of_nat of_nat_le_iff of_nat_numeral of_nat_power)
  from rounded_representable [OF this, of "- 1"] show ?thesis by simp
qed

lemma exponent64_normal:
  assumes "- 1022 \<le> binade \<bar>x\<bar>"
  shows "exponent64 x = binade \<bar>x\<bar> - 52"
  using exponent64_cases [of x] assms by linarith

lemma exponent64_mono:
  assumes "0 < x" and "x \<le> y"
  shows "exponent64 x \<le> exponent64 y"
proof -
  from assms have "binade x \<le> binade y" by (rule binade_mono)
  with assms show ?thesis by (simp add: exponent64_def)
qed

text \<open>Rounding stays within the binade: between the powers of two around the number.\<close>

lemma rounded_upper:
  assumes "0 < x"
  shows "rounded x \<le> 2 powi (exponent64 x + 53)"
proof -
  let ?e = "exponent64 x"
  from assms have "x < 2 powi (?e + 53)"
    using below_53_bits [of x] by simp
  then have "x / 2 powi ?e \<le> 2 powi 53"
    by (simp add: p2_add field_simps)
  then have "rne (x / 2 powi ?e) \<le> rne (2 powi 53)"
    by (rule rne_mono)
  also have "rne (2 powi 53) = 2 ^ 53"
    using rne_of_int [of "2 ^ 53"] by simp
  finally have "real_of_int (rne (x / 2 powi ?e)) \<le> 2 ^ 53"
    by (metis of_int_le_iff of_int_numeral of_int_power)
  then have "real_of_int (rne (x / 2 powi ?e)) * 2 powi ?e \<le> 2 ^ 53 * 2 powi ?e"
    by (intro mult_right_mono) simp_all
  with assms show ?thesis
    by (simp add: rounded_def p2_add mult.commute)
qed

lemma rounded_lower:
  assumes "0 < x" and "- 1074 < exponent64 x"
  shows "2 powi (exponent64 x + 52) \<le> rounded x"
proof -
  let ?e = "exponent64 x"
  from assms(2) have e: "?e = binade \<bar>x\<bar> - 52"
    by (simp add: exponent64_def)
  from assms(1) have "2 powi binade x \<le> x"
    by (rule binade_bounds)
  with assms(1) e have "2 powi (?e + 52) \<le> x" by simp
  then have "2 powi 52 \<le> x / 2 powi ?e"
    by (simp add: p2_add field_simps)
  then have "rne (2 powi 52) \<le> rne (x / 2 powi ?e)"
    by (rule rne_mono)
  moreover have "rne (2 powi 52) = 2 ^ 52"
    using rne_of_int [of "2 ^ 52"] by simp
  ultimately have "(2::real) ^ 52 \<le> real_of_int (rne (x / 2 powi ?e))"
    by (metis of_int_le_iff of_int_numeral of_int_power)
  then have "2 ^ 52 * 2 powi ?e \<le> real_of_int (rne (x / 2 powi ?e)) * 2 powi ?e"
    by (intro mult_right_mono) simp_all
  with assms show ?thesis
    by (simp add: rounded_def p2_add mult.commute)
qed

lemma rounded_mono:
  assumes "0 \<le> x" and "x \<le> y"
  shows "rounded x \<le> rounded y"
proof (cases "x = 0")
  case True
  with assms show ?thesis by (simp add: rounded_nonneg)
next
  case False
  with assms have x: "0 < x" and y: "0 < y" by simp_all
  have le: "exponent64 x \<le> exponent64 y"
    using x assms(2) by (rule exponent64_mono)
  show ?thesis
  proof (cases "exponent64 x = exponent64 y")
    case True
    from assms(2) have "x / 2 powi exponent64 y \<le> y / 2 powi exponent64 y"
      by (simp add: divide_right_mono)
    then have "rne (x / 2 powi exponent64 y) \<le> rne (y / 2 powi exponent64 y)"
      by (rule rne_mono)
    then have "real_of_int (rne (x / 2 powi exponent64 y)) * 2 powi exponent64 y
        \<le> real_of_int (rne (y / 2 powi exponent64 y)) * 2 powi exponent64 y"
      by (intro mult_right_mono) simp_all
    with x y True show ?thesis by (simp add: rounded_def)
  next
    case False
    with le have lt: "exponent64 x + 1 \<le> exponent64 y" by simp
    have "- 1074 \<le> exponent64 x" by (rule exponent64_ge)
    with lt have "- 1074 < exponent64 y" by simp
    with y have "2 powi (exponent64 y + 52) \<le> rounded y"
      by (rule rounded_lower)
    moreover have "rounded x \<le> 2 powi (exponent64 x + 53)"
      using x by (rule rounded_upper)
    moreover have "(2::real) powi (exponent64 x + 53) \<le> 2 powi (exponent64 y + 52)"
      using lt by (intro p2_le) simp
    ultimately show ?thesis by linarith
  qed
qed

text \<open>The rounding error of a normal number is at most half a unit in the last place.\<close>

lemma rounded_error:
  assumes "2 powi (- 1022) \<le> x"
  shows "\<bar>rounded x - x\<bar> \<le> x / 2 ^ 53"
proof -
  let ?e = "exponent64 x"
  let ?k = "binade x"
  have "0 < (2::real) powi (- 1022)" by (rule p2_pos)
  with assms have x: "0 < x" by linarith
  then have k: "2 powi ?k \<le> x" by (rule binade_bounds)
  have "- 1022 \<le> ?k"
  proof (rule p2_le_D)
    have "x < 2 powi (?k + 1)" using x by (rule binade_bounds)
    with assms have "2 powi (- 1022) < (2::real) powi (?k + 1)" by linarith
    then have "- 1022 < ?k + 1" by (rule p2_less_D)
    then show "(2::real) powi (- 1022) \<le> 2 powi ?k" by (intro p2_le) simp
  qed
  with x have e: "?e = ?k - 52" using exponent64_normal [of x] by simp
  have "\<bar>rounded x - x\<bar> = \<bar>real_of_int (rne (x / 2 powi ?e)) - x / 2 powi ?e\<bar> * 2 powi ?e"
  proof -
    have "rounded x - x = (real_of_int (rne (x / 2 powi ?e)) - x / 2 powi ?e) * 2 powi ?e"
      using x by (simp add: rounded_def field_simps)
    then show ?thesis by (simp add: abs_mult)
  qed
  also have "\<dots> \<le> 1 / 2 * 2 powi ?e"
    by (intro mult_right_mono rne_error) simp
  also have "\<dots> = 2 powi ?k / 2 ^ 53"
    unfolding e by (simp add: power_int_diff)
  also have "\<dots> \<le> x / 2 ^ 53"
    using k by (simp add: divide_right_mono)
  finally show ?thesis .
qed

text \<open>Evaluating the rounding of a number between two known powers of two.\<close>

lemma rounded_eval:
  assumes "2 powi k \<le> \<bar>x\<bar>" and "\<bar>x\<bar> < 2 powi (k + 1)" and "- 1022 \<le> k"
  shows "rounded x = of_int (rne (x / 2 powi (k - 52))) * 2 powi (k - 52)"
proof -
  from assms(1) p2_pos [of k] have "0 < \<bar>x\<bar>" by linarith
  then have "x \<noteq> 0" by simp
  moreover from assms(1,2) have k: "binade \<bar>x\<bar> = k" by (rule binade_eq)
  with assms(3) have "exponent64 x = k - 52" using exponent64_normal [of x] by simp
  ultimately show ?thesis by (simp add: rounded_def)
qed

lemma round64_Num: "\<bar>rounded x\<bar> < 2 ^ 1024 \<Longrightarrow> round64 x = Num (rounded x)"
  by (simp add: round64_def)

lemma round64_0 [simp]: "round64 0 = Num 0"
  by (simp add: round64_def)

text \<open>Rounding a number that lies between a binary64 value and a power of two.\<close>

lemma round64_between:
  assumes lo: "0 \<le> lo" "rounded lo = lo" "lo \<le> x"
    and hi: "x \<le> 2 powi k" "- 1074 \<le> k" "k \<le> 1023"
  shows "round64 x = Num (rounded x) \<and> lo \<le> rounded x \<and> rounded x \<le> 2 powi k"
proof -
  from lo have x: "0 \<le> x" by simp
  have 1: "lo \<le> rounded x"
    using rounded_mono [OF lo(1) lo(3)] lo(2) by simp
  have 2: "rounded x \<le> 2 powi k"
    using rounded_mono [OF x hi(1)] rounded_p2 [OF hi(2)] by simp
  have "(2::real) powi k \<le> 2 powi 1023"
    using hi(3) by (rule p2_le)
  also have "\<dots> < 2 ^ 1024" by simp
  finally have "2 powi k < (2::real) ^ 1024" .
  with 1 2 lo(1) have "\<bar>rounded x\<bar> < 2 ^ 1024" by simp
  then have "round64 x = Num (rounded x)" by (rule round64_Num)
  with 1 2 show ?thesis by simp
qed

lemma round64_nonneg: "0 \<le> x \<Longrightarrow> fle (Num 0) (round64 x)"
  using rounded_nonneg [of x] by (simp add: round64_def)

text \<open>Evaluating the rounding of a positive number between two known powers of two.\<close>

lemma round64_eval:
  assumes "2 powi k \<le> x" and "x < 2 powi (k + 1)" and "- 1022 \<le> k" and "k \<le> 1022"
  shows "round64 x = Num (of_int (rne (x / 2 powi (k - 52))) * 2 powi (k - 52))"
proof -
  from assms(1) p2_pos [of k] have x: "0 < x" by linarith
  then have ax: "\<bar>x\<bar> = x" by simp
  have r: "rounded x = of_int (rne (x / 2 powi (k - 52))) * 2 powi (k - 52)"
    using rounded_eval [of k x] assms(1-3) ax by simp
  have "x \<le> 2 powi (k + 1)" using assms(2) by simp
  from round64_between [of 0 x "k + 1"] this x assms(3,4)
  have "round64 x = Num (rounded x)" by simp
  with r show ?thesis by simp
qed

lemma round64_0_05: "round64 0.05 = Num (7205759403792794 / 2 ^ 57)"
  using round64_eval [of "- 5" "0.05"] by (simp add: rne_def)

lemma round64_2_2: "round64 2.2 = Num (4953959590107546 / 2 ^ 51)"
  using round64_eval [of 1 "2.2"] by (simp add: rne_def)

lemma round64_2_7: "round64 2.7 = Num (6079859496950170 / 2 ^ 51)"
  using round64_eval [of 1 "2.7"] by (simp add: rne_def)

lemma round64_2_5: "round64 2.5 = Num 2.5"
  using round64_eval [of 1 "2.5"] by (simp add: rne_def)

text \<open>The same literals as the simplifier writes them.\<close>

lemma round64_literals:
  "round64 (1 / 20) = Num (7205759403792794 / 2 ^ 57)"
  "round64 (11 / 5) = Num (4953959590107546 / 2 ^ 51)"
  "round64 (27 / 10) = Num (6079859496950170 / 2 ^ 51)"
  "round64 (5 / 2) = Num (5 / 2)"
  using round64_0_05 round64_2_2 round64_2_7 round64_2_5 by simp_all

lemma round64_of_nat:
  assumes "n \<le> 2 ^ 53"
  shows "round64 (of_nat n) = Num (of_nat n)"
proof -
  have "real n \<le> 2 ^ 53"
    using assms by (metis of_nat_le_iff of_nat_numeral of_nat_power)
  then have "\<bar>rounded (real n)\<bar> < 2 ^ 1024"
    by (simp add: rounded_of_nat [OF assms])
  then show ?thesis by (simp add: round64_Num rounded_of_nat [OF assms])
qed

lemma round64_half_of_nat:
  assumes "n \<le> 2 ^ 53"
  shows "round64 (of_nat n / 2) = Num (of_nat n / 2)"
proof -
  have "real n \<le> 2 ^ 53"
    using assms by (metis of_nat_le_iff of_nat_numeral of_nat_power)
  then have "\<bar>rounded (real n / 2)\<bar> < 2 ^ 1024"
    by (simp add: rounded_half_of_nat [OF assms])
  then show ?thesis by (simp add: round64_Num rounded_half_of_nat [OF assms])
qed

lemma seniorityFactor_of_nat:
  assumes "n \<le> 2 ^ 53"
  shows "ffloor (fdiv (Num (of_nat n)) (Num 2)) = Num (of_nat (n div 2))"
proof -
  have "\<lfloor>real n / 2\<rfloor> = int (n div 2)"
    using floor_divide_of_nat_eq [of n 2, where ?'a = real] by simp
  then show ?thesis
    by (simp add: round64_half_of_nat [OF assms])
qed

section \<open>Properties of the calculation in binary64\<close>

subsection \<open>The fields of the result\<close>

lemma perdiem64_eq:
  "perdiem64 (calculateTripValue64 v) =
     fadd (if internationalTrip64 v then round64 2.7 else round64 2.2)
       (fmul (ffloor (fdiv (seniorityYears64 v) (Num 2))) (round64 0.05))"
  by (simp add: calculateTripValue64_def Let_def)

lemma perdiemValue64_eq:
  "perdiemValue64 (calculateTripValue64 v) = fmul (tafb64 v) (perdiem64 (calculateTripValue64 v))"
  by (simp add: calculateTripValue64_def Let_def)

lemma internationalCredit64_eq:
  "internationalCredit64 (calculateTripValue64 v) =
     (if internationalTrip64 v then fmul (credit64 v) (Num 2) else Num 0)"
  by (simp add: calculateTripValue64_def Let_def)

lemma nightPayCredit64_eq:
  "nightPayCredit64 (calculateTripValue64 v) = fdiv (nightPayHours64 v) (Num 2)"
  by (simp add: calculateTripValue64_def Let_def)

lemma totalTripValue64_eq:
  "totalTripValue64 (calculateTripValue64 v) =
     fadd (fadd (fadd (fadd (fmul (hourlyRate64 v) (credit64 v))
                        (perdiemValue64 (calculateTripValue64 v)))
                  (positionCredit64 (calculateTripValue64 v)))
            (internationalCredit64 (calculateTripValue64 v)))
       (nightPayCredit64 (calculateTripValue64 v))"
  by (simp add: calculateTripValue64_def Let_def)

text \<open>
  The position credit of a purser and of a galley, and the fields a speaker's result
  does not read, are on binary64 numbers what they are in exact arithmetic: the
  properties of the first embedding that are about the shape of the function carry over
  by the same unfolding.
\<close>

lemma positionCredit64_purser:
  "position64 v = Purser \<Longrightarrow>
   positionCredit64 (calculateTripValue64 v) =
     (if aircraft64 v \<in> {Some ''A319'', Some ''A320'', Some ''B737''} then
        fmul (credit64 v) (Num (if isMexicoCaribbean64 v then 2 else 1))
      else if aircraft64 v \<in> {Some ''B737-800'', Some ''B737-900'', Some ''B757''} then
        fmul (credit64 v) (Num (if isMexicoCaribbean64 v then 3 else 2))
      else if aircraft64 v = Some ''widebody'' then
        fmul (credit64 v) (Num (if isMexicoCaribbean64 v then 4 else 3))
      else Num 0)"
  by (cases "aircraft64 v")
     (auto simp add: calculateTripValue64_def Let_def array_includes_def aircraft_or_empty_def)

lemma positionCredit64_galley:
  "position64 v = Galley \<Longrightarrow>
   positionCredit64 (calculateTripValue64 v) = hours_or_zero64 (hoursInWidebody64 v)"
  by (simp add: calculateTripValue64_def Let_def)

lemma speaker64_independence:
  "position64 v = Speaker \<Longrightarrow>
   calculateTripValue64
     (v\<lparr>aircraft64 := a, isMexicoCaribbean64 := r, hoursInWidebody64 := h\<rparr>)
     = calculateTripValue64 v"
  by (simp add: calculateTripValue64_def Let_def)

subsection \<open>Signs\<close>

lemma fle_zero_iff: "fle (Num 0) d \<longleftrightarrow> d = PosInf \<or> (\<exists>a. d = Num a \<and> 0 \<le> a)"
  by (cases d) simp_all

lemma finite64_iff: "finite64 d \<longleftrightarrow> (\<exists>a. d = Num a \<and> \<bar>a\<bar> < 2 ^ 1024)"
  by (cases d) (simp_all add: finite64_def)

lemma finite_nonneg:
  assumes "fle (Num 0) d" and "finite64 d"
  obtains a where "d = Num a" and "0 \<le> a" and "a < 2 ^ 1024"
  using assms by (cases d) (simp_all add: finite64_def)

lemma fmul_nonneg: "0 \<le> a \<Longrightarrow> 0 \<le> b \<Longrightarrow> fle (Num 0) (fmul (Num a) (Num b))"
  by (simp add: round64_nonneg)

lemma fadd_nonneg:
  assumes "fle (Num 0) a" and "fle (Num 0) b"
  shows "fle (Num 0) (fadd a b)"
  using assms by (cases a; cases b) (simp_all add: round64_nonneg)

lemma half_nonneg: "0 \<le> a \<Longrightarrow> fle (Num 0) (fdiv (Num a) (Num 2))"
  by (simp add: round64_nonneg)

lemma hours_or_zero64_nonneg:
  assumes "case h of None \<Rightarrow> True | Some x \<Rightarrow> fle (Num 0) x"
  shows "fle (Num 0) (hours_or_zero64 h)"
  using assms by (cases h) (simp_all add: hours_or_zero64_def)

lemma representable_2_2: "rounded (2476979795053773 / 2 ^ 50) = 2476979795053773 / 2 ^ 50"
  using rounded_representable [of 2476979795053773 "- 50"] by simp

lemma representable_2_7: "rounded (3039929748475085 / 2 ^ 50) = 3039929748475085 / 2 ^ 50"
  using rounded_representable [of 3039929748475085 "- 50"] by simp

text \<open>
  The per-diem rate of a finite seniority that is at least 0: a finite number, at least
  the base.
\<close>

lemma perdiem_finite:
  assumes s: "0 \<le> s" "s < 2 ^ 1024"
    and b: "0 \<le> b" "rounded b = b" "b \<le> 4"
  shows "\<exists>p. fadd (Num b) (fmul (ffloor (fdiv (Num s) (Num 2))) (round64 0.05)) = Num p
           \<and> b \<le> p \<and> p \<le> 2 powi 1020"
proof -
  have "s / 2 \<le> 2 powi 1023" using s by simp
  from round64_between [of 0 "s / 2" 1023] this s(1)
  have h: "round64 (s / 2) = Num (rounded (s / 2))"
    and h0: "0 \<le> rounded (s / 2)" and h1: "rounded (s / 2) \<le> 2 powi 1023"
    by simp_all
  define F where "F = real_of_int \<lfloor>rounded (s / 2)\<rfloor>"
  have F: "ffloor (fdiv (Num s) (Num 2)) = Num F"
    by (simp add: h F_def)
  have F0: "0 \<le> F" using h0 by (simp add: F_def)
  have "F \<le> rounded (s / 2)" by (simp add: F_def)
  with h1 have F1: "F \<le> 2 powi 1023" by linarith
  define c where "c = (7205759403792794 / 2 ^ 57 :: real)"
  have c: "round64 0.05 = Num c" by (simp add: c_def round64_literals)
  have c0: "0 \<le> c" and c1: "c \<le> 1 / 16" by (simp_all add: c_def)
  have "F * c \<le> 2 powi 1023 * (1 / 16)"
    using F1 c1 F0 c0 by (intro mult_mono) simp_all
  also have "\<dots> = 2 powi 1019" by simp
  finally have Fc: "F * c \<le> 2 powi 1019" .
  from round64_between [of 0 "F * c" 1019] Fc F0 c0
  have t: "round64 (F * c) = Num (rounded (F * c))"
    and t0: "0 \<le> rounded (F * c)" and t1: "rounded (F * c) \<le> 2 powi 1019"
    by simp_all
  have "b + rounded (F * c) \<le> 4 + 2 powi 1019" using b(3) t1 by linarith
  also have "\<dots> \<le> 2 powi 1020" by simp
  finally have bt: "b + rounded (F * c) \<le> 2 powi 1020" .
  from round64_between [of b "b + rounded (F * c)" 1020] b(1,2) t0 bt
  have "round64 (b + rounded (F * c)) = Num (rounded (b + rounded (F * c)))"
    and "b \<le> rounded (b + rounded (F * c))"
    and "rounded (b + rounded (F * c)) \<le> 2 powi 1020"
    by simp_all
  then show ?thesis
    unfolding F c fmul.simps t fadd.simps by blast
qed

lemma positionCredit64_nonneg:
  assumes "credit64 v = Num c" and "0 \<le> c"
    and "case hoursInWidebody64 v of None \<Rightarrow> True | Some x \<Rightarrow> fle (Num 0) x"
  shows "fle (Num 0) (positionCredit64 (calculateTripValue64 v))"
  using assms(1,2) hours_or_zero64_nonneg [OF assms(3)]
  by (simp add: calculateTripValue64_def Let_def round64_nonneg round64_literals)

text \<open>
  C9, for the inputs with finite numbers. On validated values whose numeric fields are
  all finite, every field of the result is at least 0 (a product or a sum that overflows
  is \<^verbatim>\<open>Infinity\<close>, which is at least 0), and the per-diem rate is finite and at least
  the binary64 value of 2.20.
\<close>

theorem result_nonnegative64:
  assumes "validated64 v" and "finite_fields64 v"
  shows "fle (Num 0) (perdiem64 (calculateTripValue64 v)) \<and>
     fle (Num 0) (perdiemValue64 (calculateTripValue64 v)) \<and>
     fle (Num 0) (positionCredit64 (calculateTripValue64 v)) \<and>
     fle (Num 0) (internationalCredit64 (calculateTripValue64 v)) \<and>
     fle (Num 0) (nightPayCredit64 (calculateTripValue64 v)) \<and>
     fle (Num 0) (totalTripValue64 (calculateTripValue64 v)) \<and>
     fle (round64 2.20) (perdiem64 (calculateTripValue64 v)) \<and>
     finite64 (perdiem64 (calculateTripValue64 v))"
proof -
  from assms obtain s where s: "seniorityYears64 v = Num s" "0 \<le> s" "s < 2 ^ 1024"
    by (auto simp add: validated64_def finite_fields64_def elim: finite_nonneg)
  from assms obtain t where t: "tafb64 v = Num t" "0 \<le> t"
    by (auto simp add: validated64_def finite_fields64_def elim: finite_nonneg)
  from assms obtain hr where hr: "hourlyRate64 v = Num hr" "0 \<le> hr"
    by (auto simp add: validated64_def finite_fields64_def elim: finite_nonneg)
  from assms obtain c where c: "credit64 v = Num c" "0 \<le> c"
    by (auto simp add: validated64_def finite_fields64_def elim: finite_nonneg)
  from assms obtain n where n: "nightPayHours64 v = Num n" "0 \<le> n"
    by (auto simp add: validated64_def finite_fields64_def elim: finite_nonneg)
  from assms have h: "case hoursInWidebody64 v of None \<Rightarrow> True | Some x \<Rightarrow> fle (Num 0) x"
    by (simp add: validated64_def)
  define b where "b = (if internationalTrip64 v then 3039929748475085 / 2 ^ 50
                       else 2476979795053773 / 2 ^ 50 :: real)"
  have base: "(if internationalTrip64 v then round64 2.7 else round64 2.2) = Num b"
    by (simp add: b_def round64_literals)
  have "rounded b = b"
  proof (cases "internationalTrip64 v")
    case True
    then show ?thesis unfolding b_def by (simp only: if_True representable_2_7)
  next
    case False
    then show ?thesis unfolding b_def by (simp only: if_False representable_2_2)
  qed
  moreover have "0 \<le> b" "b \<le> 4" "2476979795053773 / 2 ^ 50 \<le> b"
    by (simp_all add: b_def)
  ultimately have b: "0 \<le> b" "rounded b = b" "b \<le> 4" "2476979795053773 / 2 ^ 50 \<le> b"
    by blast+
  from perdiem_finite [OF s(2,3) b(1-3)] obtain p
    where p: "perdiem64 (calculateTripValue64 v) = Num p" "b \<le> p" "p \<le> 2 powi 1020"
    unfolding perdiem64_eq base s(1) by blast
  from p(2) b(1) have p0: "0 \<le> p" by linarith
  have "p \<le> 2 powi 1020" by (rule p(3))
  also have "(2::real) powi 1020 < 2 ^ 1024" by simp
  finally have pfin: "\<bar>p\<bar> < 2 ^ 1024" using p0 by simp
  have pd: "fle (Num 0) (perdiem64 (calculateTripValue64 v))"
    using p0 by (simp add: p(1))
  have pv: "fle (Num 0) (perdiemValue64 (calculateTripValue64 v))"
    unfolding perdiemValue64_eq p(1) t(1) using t(2) p0 by (rule fmul_nonneg)
  have pc: "fle (Num 0) (positionCredit64 (calculateTripValue64 v))"
    using c h by (rule positionCredit64_nonneg)
  have ic: "fle (Num 0) (internationalCredit64 (calculateTripValue64 v))"
    unfolding internationalCredit64_eq c(1) using c(2) by (simp add: round64_nonneg)
  have np: "fle (Num 0) (nightPayCredit64 (calculateTripValue64 v))"
    unfolding nightPayCredit64_eq n(1) using n(2) by (rule half_nonneg)
  have bv: "fle (Num 0) (fmul (hourlyRate64 v) (credit64 v))"
    unfolding hr(1) c(1) using hr(2) c(2) by (rule fmul_nonneg)
  have tot: "fle (Num 0) (totalTripValue64 (calculateTripValue64 v))"
    unfolding totalTripValue64_eq by (intro fadd_nonneg bv pv pc ic np)
  have low: "fle (round64 2.20) (perdiem64 (calculateTripValue64 v))"
    using b(4) p(2) by (simp add: p(1) round64_literals)
  have fin: "finite64 (perdiem64 (calculateTripValue64 v))"
    using pfin by (simp add: p(1) finite64_def)
  from pd pv pc ic np tot low fin show ?thesis by simp
qed

theorem result_nonnegative64_witness:
  "validated64 scenarioA64 \<and> finite_fields64 scenarioA64
   \<and> fle (Num 0) (perdiemValue64 (calculateTripValue64 scenarioA64))
   \<and> fle (Num 0) (totalTripValue64 (calculateTripValue64 scenarioA64))
   \<and> fle (round64 2.20) (perdiem64 (calculateTripValue64 scenarioA64))"
proof -
  have v: "validated64 scenarioA64"
    by (simp add: validated64_def scenarioA64_def)
  have f: "finite_fields64 scenarioA64"
    by (simp add: finite_fields64_def finite64_def scenarioA64_def)
  from result_nonnegative64 [OF v f] v f show ?thesis by simp
qed

text \<open>
  C9 as it is written, for every validated input, fails at an infinite seniority: the
  schema accepts \<^verbatim>\<open>Infinity\<close>, the per-diem rate is then \<^verbatim>\<open>Infinity\<close>, and with
  no time away from base the per-diem value is \<^verbatim>\<open>0 * Infinity\<close>, which is
  \<^verbatim>\<open>NaN\<close>, and so is the total; \<^verbatim>\<open>NaN\<close> is not at least 0.
\<close>

theorem infinite_seniority_gives_NaN:
  "validated64 (defaultValues64\<lparr>seniorityYears64 := PosInf\<rparr>)
   \<and> perdiem64 (calculateTripValue64 (defaultValues64\<lparr>seniorityYears64 := PosInf\<rparr>)) = PosInf
   \<and> perdiemValue64 (calculateTripValue64 (defaultValues64\<lparr>seniorityYears64 := PosInf\<rparr>)) = NaN
   \<and> totalTripValue64 (calculateTripValue64 (defaultValues64\<lparr>seniorityYears64 := PosInf\<rparr>)) = NaN
   \<and> \<not> fle (Num 0) (perdiemValue64 (calculateTripValue64 (defaultValues64\<lparr>seniorityYears64 := PosInf\<rparr>)))
   \<and> \<not> fle (Num 0) (totalTripValue64 (calculateTripValue64 (defaultValues64\<lparr>seniorityYears64 := PosInf\<rparr>)))"
  by (simp add: validated64_def defaultValues64_def calculateTripValue64_def Let_def
        infinity_of_sign_def round64_literals)

text \<open>
  The domestic trip of a speaker as the program computes it: the total is 1075, the
  per-diem rate is 2.3000000000000003 and the per-diem value 23.000000000000004.
\<close>

lemma calculateTripValue64_scenarioA:
  "calculateTripValue64 scenarioA64 =
     \<lparr>perdiem64 = Num (5179139571476071 / 2 ^ 51),
      perdiemValue64 = Num (6473924464345089 / 2 ^ 48),
      positionCredit64 = Num 50, internationalCredit64 = Num 0,
      nightPayCredit64 = Num 2, totalTripValue64 = Num 1075\<rparr>"
proof -
  have sf: "ffloor (fdiv (Num 4) (Num 2)) = Num 2"
    using seniorityFactor_of_nat [of 4] by simp
  have p: "fadd (Num (4953959590107546 / 2 ^ 51)) (round64 (2 * (7205759403792794 / 2 ^ 57)))
      = Num (5179139571476071 / 2 ^ 51)"
    using round64_eval [of "- 4" "2 * (7205759403792794 / 2 ^ 57)"]
      round64_eval [of 1 "4953959590107546 / 2 ^ 51 + 2 * (7205759403792794 / 2 ^ 57)"]
    by (simp add: rne_def)
  have pv: "round64 (10 * (5179139571476071 / 2 ^ 51)) = Num (6473924464345089 / 2 ^ 48)"
    using round64_eval [of 4 "10 * (5179139571476071 / 2 ^ 51)"] by (simp add: rne_def)
  have bv: "round64 (50 * 20) = Num 1000"
    using round64_of_nat [of 1000] by simp
  have pc: "round64 (20 * (5 / 2)) = Num 50"
    using round64_of_nat [of 50] by simp
  have np: "round64 (4 / 2) = Num 2"
    using round64_of_nat [of 2] by simp
  have s1: "round64 (1000 + 6473924464345089 / 2 ^ 48) = Num 1023"
    using round64_eval [of 9 "1000 + 6473924464345089 / 2 ^ 48"] by (simp add: rne_def)
  have s2: "round64 (1023 + 50) = Num 1073"
    using round64_of_nat [of 1073] by simp
  have s3: "round64 (1073 + 0) = Num 1073"
    using round64_of_nat [of 1073] by simp
  have s4: "round64 (1073 + 2) = Num 1075"
    using round64_of_nat [of 1075] by simp
  show ?thesis
    using sf p pv bv pc np s1 s2 s3 s4
    by (simp add: calculateTripValue64_def scenarioA64_def Let_def round64_literals)
qed

subsection \<open>Two more years of seniority\<close>

lemma rounding_error_arith:
  fixes p y t x f b :: real
  assumes py: "p - y \<le> y / 9007199254740992" "y - p \<le> y / 9007199254740992"
    and tx: "t - x \<le> x / 9007199254740992" "x - t \<le> x / 9007199254740992"
    and x: "f / 20 \<le> x" "x \<le> f / 20 + f / 288230376151711744"
    and y: "y = b + t" and b: "b \<le> 3" and f: "0 \<le> f"
  shows "\<bar>p - (b + f / 20)\<bar> \<le> (3 + f / 4) / 9007199254740992"
proof -
  have 1: "t \<le> x + x / 9007199254740992" using tx(1) by linarith
  have 2: "y \<le> 3 + x + x / 9007199254740992" using 1 y b by linarith
  have 3: "y / 9007199254740992 \<le> (3 + x + x / 9007199254740992) / 9007199254740992"
    using 2 by (simp add: divide_right_mono)
  have 4: "x \<le> f / 16" using x(2) f by linarith
  have 5: "x / 9007199254740992 \<le> f / 16" using 4 x(1) f by linarith
  have 6: "(3 + x + x / 9007199254740992) / 9007199254740992
      \<le> (3 + f / 16 + f / 16) / 9007199254740992"
    using 4 5 by (simp add: divide_right_mono)
  have 7: "x / 9007199254740992 \<le> (f / 16) / 9007199254740992"
    using 4 by (simp add: divide_right_mono)
  have 8: "x - f / 20 \<le> (f / 32) / 9007199254740992" using x(2) by simp
  have 9: "(3 + f / 16 + f / 16) / 9007199254740992 + (f / 16) / 9007199254740992
      + (f / 32) / 9007199254740992 \<le> (3 + f / 4) / 9007199254740992"
    using f by (simp add: field_simps)
  have "p - (b + f / 20) = (p - y) + (t - x) + (x - f / 20)" using y by simp
  also have "\<dots> \<le> (3 + f / 16 + f / 16) / 9007199254740992 + (f / 16) / 9007199254740992
      + (f / 32) / 9007199254740992"
    using py(1) tx(1) 3 6 7 8 by linarith
  finally have upper: "p - (b + f / 20) \<le> (3 + f / 4) / 9007199254740992"
    using 9 by linarith
  have 10: "0 \<le> (f / 32) / 9007199254740992" using f by simp
  have "(b + f / 20) - p = (y - p) + (x - t) + (f / 20 - x)" using y by simp
  also have "\<dots> \<le> (3 + f / 16 + f / 16) / 9007199254740992 + (f / 16) / 9007199254740992
      + (f / 32) / 9007199254740992"
    using py(2) tx(2) 3 6 7 x(1) 10 by linarith
  finally have lower: "(b + f / 20) - p \<le> (3 + f / 4) / 9007199254740992"
    using 9 by linarith
  from upper lower show ?thesis by (intro abs_leI) linarith+
qed

text \<open>
  The per-diem rate for a seniority factor \<open>F\<close>, against the exact \<open>b + F * 0.05\<close>.
\<close>

lemma perdiem_near:
  assumes F: "F \<le> 2 ^ 52" and b: "2 \<le> b" "b \<le> 3"
  shows "\<exists>p. fadd (Num b) (fmul (Num (real F)) (round64 0.05)) = Num p
           \<and> \<bar>p - (b + real F * 0.05)\<bar> \<le> (3 + real F / 4) / 2 ^ 53"
proof -
  define c where "c = (3602879701896397 / 2 ^ 56 :: real)"
  define x where "x = real F * c"
  have c: "round64 0.05 = Num c" by (simp add: c_def round64_literals)
  have c_lo: "1 / 20 \<le> c" and c_hi: "c \<le> 1 / 20 + 1 / (32 * 2 ^ 53)" and c16: "c \<le> 1 / 16"
    by (simp_all add: c_def)
  have F0: "0 \<le> real F" by simp
  have F52: "real F \<le> 2 ^ 52"
    using F by (metis of_nat_le_iff of_nat_numeral of_nat_power)
  have x_lo: "real F / 20 \<le> x"
    unfolding x_def using mult_left_mono [OF c_lo F0] by simp
  have x_hi: "x \<le> real F / 20 + real F / (32 * 2 ^ 53)"
    unfolding x_def using mult_left_mono [OF c_hi F0] by (simp add: algebra_simps)
  have x0: "0 \<le> x" using x_lo F0 by simp
  have c0: "0 \<le> c" using c_lo by simp
  have "x \<le> 2 ^ 52 * (1 / 16)"
    unfolding x_def using F52 c16 F0 c0 by (intro mult_mono) simp_all
  then have x48: "x \<le> 2 powi 48" by simp
  from round64_between [of 0 x 48] x0 x48
  have t: "round64 x = Num (rounded x)" and t0: "0 \<le> rounded x"
    and t48: "rounded x \<le> 2 powi 48" by simp_all
  have t_err: "\<bar>rounded x - x\<bar> \<le> x / 2 ^ 53"
  proof (cases "F = 0")
    case True
    then show ?thesis by (simp add: x_def)
  next
    case False
    then have "1 \<le> real F" by simp
    then have "1 * c \<le> real F * c"
      by (intro mult_right_mono) (simp_all add: c_def)
    then have "c \<le> x" by (simp add: x_def)
    moreover have "2 powi (- 1022) \<le> c" by (simp add: c_def)
    ultimately have "2 powi (- 1022) \<le> x" by linarith
    then show ?thesis by (rule rounded_error)
  qed
  define y where "y = b + rounded x"
  have y2: "2 \<le> y" using b(1) t0 by (simp add: y_def)
  have "y \<le> 3 + 2 powi 48" using b(2) t48 by (simp add: y_def)
  also have "\<dots> \<le> 2 powi 49" by simp
  finally have y49: "y \<le> 2 powi 49" .
  from round64_between [of 0 y 49] y2 y49
  have p: "round64 y = Num (rounded y)" by simp
  have "2 powi (- 1022) \<le> (2::real)" by simp
  with y2 have "2 powi (- 1022) \<le> y" by linarith
  then have p_err: "\<bar>rounded y - y\<bar> \<le> y / 2 ^ 53" by (rule rounded_error)
  define p where "p = rounded y"
  define t where "t = rounded x"
  define f where "f = real F"
  have "p - y \<le> y / 2 ^ 53" and "- (p - y) \<le> y / 2 ^ 53"
    using p_err unfolding p_def by (rule abs_le_D1, rule abs_le_D2)
  then have A: "p - y \<le> y / 9007199254740992" "y - p \<le> y / 9007199254740992"
    by simp_all
  have "t - x \<le> x / 2 ^ 53" and "- (t - x) \<le> x / 2 ^ 53"
    using t_err unfolding t_def by (rule abs_le_D1, rule abs_le_D2)
  then have B: "t - x \<le> x / 9007199254740992" "x - t \<le> x / 9007199254740992"
    by simp_all
  have C: "f / 20 \<le> x" "x \<le> f / 20 + f / 288230376151711744"
    using x_lo x_hi by (simp_all add: f_def)
  have D: "y = b + t" "b \<le> 3" "0 \<le> f"
    using b(2) by (simp_all add: y_def t_def f_def)
  have "\<bar>p - (b + f / 20)\<bar> \<le> (3 + f / 4) / 9007199254740992"
    using A B C D by (rule rounding_error_arith)
  then have "\<bar>rounded y - (b + real F * 0.05)\<bar> \<le> (3 + real F / 4) / 2 ^ 53"
    by (simp add: p_def f_def)
  moreover have "fadd (Num b) (fmul (Num (real F)) (round64 0.05)) = Num (rounded y)"
    unfolding c fmul.simps x_def [symmetric] t fadd.simps y_def [symmetric] p ..
  ultimately show ?thesis by blast
qed

lemma perdiem64_two_years:
  "perdiem64 (calculateTripValue64 (defaultValues64\<lparr>seniorityYears64 := Num 2\<rparr>)) = Num (9 / 4)"
proof -
  have "fadd (Num (4953959590107546 / 2 ^ 51)) (round64 (7205759403792794 / 2 ^ 57)) = Num (9 / 4)"
    using round64_eval [of "- 5" "7205759403792794 / 2 ^ 57"]
      round64_eval [of 1 "4953959590107546 / 2 ^ 51 + 7205759403792794 / 2 ^ 57"]
    by (simp add: rne_def)
  moreover have "ffloor (fdiv (Num 2) (Num 2)) = Num 1"
    using seniorityFactor_of_nat [of 2] by simp
  ultimately show ?thesis
    by (simp add: defaultValues64_def calculateTripValue64_def Let_def round64_literals)
qed

lemma perdiem64_four_years:
  "perdiem64 (calculateTripValue64 (defaultValues64\<lparr>seniorityYears64 := Num 4\<rparr>))
     = Num (5179139571476071 / 2 ^ 51)"
proof -
  have "fadd (Num (4953959590107546 / 2 ^ 51)) (round64 (2 * (7205759403792794 / 2 ^ 57)))
      = Num (5179139571476071 / 2 ^ 51)"
    using round64_eval [of "- 4" "2 * (7205759403792794 / 2 ^ 57)"]
      round64_eval [of 1 "4953959590107546 / 2 ^ 51 + 2 * (7205759403792794 / 2 ^ 57)"]
    by (simp add: rne_def)
  moreover have "ffloor (fdiv (Num 4) (Num 2)) = Num 2"
    using seniorityFactor_of_nat [of 4] by simp
  ultimately show ?thesis
    by (simp add: defaultValues64_def calculateTripValue64_def Let_def round64_literals)
qed

text \<open>
  C5, as the program computes it. For a whole number \<open>n\<close> of seniority years with
  \<open>n + 2\<close> at most \<open>2 ^ 53\<close>, two more years raise the seniority factor by exactly 1,
  from \<open>n div 2\<close> to \<open>n div 2 + 1\<close>, and the per-diem rate rises by 0.05 up to the
  rounding of binary64: the rise differs from 0.05 by at most \<open>(1 + n) / 2 ^ 50\<close>.
\<close>

theorem seniority_two_more_years64:
  assumes "seniorityYears64 v = Num (real n)" and "n + 2 \<le> 2 ^ 53"
  shows "\<exists>p p'.
      perdiem64 (calculateTripValue64 v) = Num p
    \<and> perdiem64 (calculateTripValue64 (v\<lparr>seniorityYears64 := Num (real (n + 2))\<rparr>)) = Num p'
    \<and> perdiem64 (calculateTripValue64 v) =
        fadd (if internationalTrip64 v then round64 2.7 else round64 2.2)
          (fmul (Num (real (n div 2))) (round64 0.05))
    \<and> perdiem64 (calculateTripValue64 (v\<lparr>seniorityYears64 := Num (real (n + 2))\<rparr>)) =
        fadd (if internationalTrip64 v then round64 2.7 else round64 2.2)
          (fmul (Num (real (n div 2 + 1))) (round64 0.05))
    \<and> \<bar>p' - p - 0.05\<bar> \<le> (1 + real n) / 2 ^ 50"
proof -
  let ?v' = "v\<lparr>seniorityYears64 := Num (real (n + 2))\<rparr>"
  define b where "b = (if internationalTrip64 v then 3039929748475085 / 2 ^ 50
                       else 2476979795053773 / 2 ^ 50 :: real)"
  have base: "(if internationalTrip64 v then round64 2.7 else round64 2.2) = Num b"
    by (simp add: b_def round64_literals)
  have b: "2 \<le> b" "b \<le> 3" by (simp_all add: b_def)
  from assms(2) have n: "n \<le> 2 ^ 53" by simp
  have F: "ffloor (fdiv (Num (real n)) (Num 2)) = Num (real (n div 2))"
    using n by (rule seniorityFactor_of_nat)
  have F': "ffloor (fdiv (Num (real (n + 2))) (Num 2)) = Num (real (n div 2 + 1))"
    using seniorityFactor_of_nat [OF assms(2)] by simp
  have e: "perdiem64 (calculateTripValue64 v) =
      fadd (if internationalTrip64 v then round64 2.7 else round64 2.2)
        (fmul (Num (real (n div 2))) (round64 0.05))"
    unfolding perdiem64_eq assms(1) F ..
  have e': "perdiem64 (calculateTripValue64 ?v') =
      fadd (if internationalTrip64 v then round64 2.7 else round64 2.2)
        (fmul (Num (real (n div 2 + 1))) (round64 0.05))"
  proof -
    have sel: "seniorityYears64 ?v' = Num (real (n + 2))"
      and it: "internationalTrip64 ?v' = internationalTrip64 v"
      by simp_all
    show ?thesis unfolding perdiem64_eq sel it F' ..
  qed
  have "n div 2 + 1 \<le> 2 ^ 52" using assms(2) by simp
  then have "n div 2 \<le> 2 ^ 52" by simp
  from perdiem_near [OF this b] obtain p
    where p: "fadd (Num b) (fmul (Num (real (n div 2))) (round64 0.05)) = Num p"
      and pe: "\<bar>p - (b + real (n div 2) * 0.05)\<bar> \<le> (3 + real (n div 2) / 4) / 2 ^ 53"
    by blast
  from perdiem_near [OF \<open>n div 2 + 1 \<le> 2 ^ 52\<close> b] obtain p'
    where p': "fadd (Num b) (fmul (Num (real (n div 2 + 1))) (round64 0.05)) = Num p'"
      and pe': "\<bar>p' - (b + real (n div 2 + 1) * 0.05)\<bar> \<le> (3 + real (n div 2 + 1) / 4) / 2 ^ 53"
    by blast
  have half: "real (n div 2) \<le> real n / 2"
    by (metis of_nat_div_le_of_nat of_nat_numeral)
  define g where "g = real (n div 2)"
  have g': "real (n div 2 + 1) = g + 1" by (simp add: g_def)
  have g0: "0 \<le> g" and gn: "g \<le> real n / 2" using half by (simp_all add: g_def)
  from pe have "p - (b + g * 0.05) \<le> (3 + g / 4) / 2 ^ 53"
    and "- (p - (b + g * 0.05)) \<le> (3 + g / 4) / 2 ^ 53"
    unfolding g_def by (rule abs_le_D1, rule abs_le_D2)
  then have P: "p - (b + g / 20) \<le> (3 + g / 4) / 9007199254740992"
    "(b + g / 20) - p \<le> (3 + g / 4) / 9007199254740992"
    by simp_all
  from pe' have "p' - (b + (g + 1) * 0.05) \<le> (3 + (g + 1) / 4) / 2 ^ 53"
    and "- (p' - (b + (g + 1) * 0.05)) \<le> (3 + (g + 1) / 4) / 2 ^ 53"
    unfolding g' by (rule abs_le_D1, rule abs_le_D2)
  then have P': "p' - (b + (g + 1) / 20) \<le> (3 + (g + 1) / 4) / 9007199254740992"
    "(b + (g + 1) / 20) - p' \<le> (3 + (g + 1) / 4) / 9007199254740992"
    by simp_all
  have sum: "(3 + g / 4) / 9007199254740992 + (3 + (g + 1) / 4) / 9007199254740992
      \<le> (1 + real n) / 1125899906842624"
    using g0 gn by (simp add: field_simps)
  have "p' - p - 1 / 20 =
      (p' - (b + (g + 1) / 20)) + ((b + g / 20) - p)" by (simp add: field_simps)
  then have upper: "p' - p - 1 / 20 \<le> (1 + real n) / 1125899906842624"
    using P'(1) P(2) sum by linarith
  have "- (p' - p - 1 / 20) =
      ((b + (g + 1) / 20) - p') + (p - (b + g / 20))" by (simp add: field_simps)
  then have lower: "- (p' - p - 1 / 20) \<le> (1 + real n) / 1125899906842624"
    using P'(2) P(1) sum by linarith
  from upper lower have "\<bar>p' - p - 1 / 20\<bar> \<le> (1 + real n) / 1125899906842624"
    by (intro abs_leI)
  then have "\<bar>p' - p - 0.05\<bar> \<le> (1 + real n) / 2 ^ 50"
    by simp
  moreover from e have "perdiem64 (calculateTripValue64 v) = Num p"
    unfolding base p .
  moreover from e' have "perdiem64 (calculateTripValue64 ?v') = Num p'"
    unfolding base p' .
  ultimately show ?thesis
    using e e' by blast
qed

theorem seniority_two_more_years64_witness:
  "seniorityYears64 (defaultValues64\<lparr>seniorityYears64 := Num 2\<rparr>) = Num (real 2)
   \<and> (2::nat) + 2 \<le> 2 ^ 53
   \<and> perdiem64 (calculateTripValue64 (defaultValues64\<lparr>seniorityYears64 := Num 2\<rparr>)) = Num (9 / 4)
   \<and> perdiem64 (calculateTripValue64 (defaultValues64\<lparr>seniorityYears64 := Num 4\<rparr>))
       = Num (5179139571476071 / 2 ^ 51)
   \<and> \<bar>5179139571476071 / 2 ^ 51 - 9 / 4 - (0.05::real)\<bar> \<le> (1 + real 2) / 2 ^ 50"
proof -
  have h: "seniorityYears64 (defaultValues64\<lparr>seniorityYears64 := Num 2\<rparr>) = Num (real 2)"
    by simp
  have n: "(2::nat) + 2 \<le> 2 ^ 53" by simp
  from seniority_two_more_years64 [OF h n] obtain p p' where
    "perdiem64 (calculateTripValue64 (defaultValues64\<lparr>seniorityYears64 := Num 2\<rparr>)) = Num p"
    "perdiem64 (calculateTripValue64 (defaultValues64\<lparr>seniorityYears64 := Num 2\<rparr>
        \<lparr>seniorityYears64 := Num (real (2 + 2))\<rparr>)) = Num p'"
    "\<bar>p' - p - 0.05\<bar> \<le> (1 + real 2) / 2 ^ 50"
    by blast
  then have "p = 9 / 4" and "p' = 5179139571476071 / 2 ^ 51"
    and "\<bar>p' - p - 0.05\<bar> \<le> (1 + real 2) / 2 ^ 50"
    by (simp_all add: perdiem64_two_years perdiem64_four_years)
  then have "\<bar>5179139571476071 / 2 ^ 51 - 9 / 4 - (0.05::real)\<bar> \<le> (1 + real 2) / 2 ^ 50"
    by simp
  with h n show ?thesis
    by (simp add: perdiem64_two_years perdiem64_four_years)
qed

text \<open>
  C5 as it is written, with a rise of exactly 0.05, fails from 2 to 4 years: the rate
  goes from 2.25 to 2.3000000000000003, while 2.25 + 0.05 is 2.3 in binary64, a
  different number, and the exact difference of the two rates is not 0.05 either.
\<close>

theorem two_more_years_not_exact:
  "perdiem64 (calculateTripValue64 (defaultValues64\<lparr>seniorityYears64 := Num 2\<rparr>)) = Num (9 / 4)
   \<and> perdiem64 (calculateTripValue64 (defaultValues64\<lparr>seniorityYears64 := Num 4\<rparr>))
       = Num (5179139571476071 / 2 ^ 51)
   \<and> fadd (Num (9 / 4)) (round64 0.05) = Num (5179139571476070 / 2 ^ 51)
   \<and> Num (5179139571476070 / 2 ^ 51) \<noteq> Num (5179139571476071 / 2 ^ 51)
   \<and> (5179139571476071 / 2 ^ 51 - 9 / 4 \<noteq> (0.05::real))"
proof -
  have "fadd (Num (9 / 4)) (round64 0.05) = Num (5179139571476070 / 2 ^ 51)"
    using round64_eval [of 1 "9 / 4 + 7205759403792794 / 2 ^ 57"]
    by (simp add: round64_literals rne_def)
  then show ?thesis
    by (simp add: perdiem64_two_years perdiem64_four_years)
qed

text \<open>
  Why the whole numbers up to \<open>2 ^ 53\<close>. Beyond them the sum \<^verbatim>\<open>seniorityYears + 2\<close>
  is itself rounded: at \<open>2 ^ 54\<close> it is \<open>2 ^ 54\<close> again, so the rate does not move, and
  at 1.9999999999999998 it is 4, so the seniority factor goes from 0 to 2.
\<close>

lemma two_more_years_absorbed:
  "fadd (Num (2 ^ 54)) (Num 2) = Num (2 ^ 54)"
  using round64_eval [of 54 "2 ^ 54 + 2"] by (simp add: rne_def)

lemma two_more_years_skip_a_step:
  "fadd (Num (2 - 1 / 2 ^ 52)) (Num 2) = Num 4
   \<and> ffloor (fdiv (Num (2 - 1 / 2 ^ 52)) (Num 2)) = Num 0
   \<and> ffloor (fdiv (Num 4) (Num 2)) = Num 2"
proof -
  have "fadd (Num (2 - 1 / 2 ^ 52)) (Num 2) = Num 4"
    using round64_eval [of 1 "2 - 1 / 2 ^ 52 + 2"] by (simp add: rne_def)
  moreover have "ffloor (fdiv (Num (2 - 1 / 2 ^ 52)) (Num 2)) = Num 0"
    using round64_eval [of "- 1" "(2 - 1 / 2 ^ 52) / 2"] by (simp add: rne_def)
  moreover have "ffloor (fdiv (Num 4) (Num 2)) = Num 2"
    using seniorityFactor_of_nat [of 4] by simp
  ultimately show ?thesis by simp
qed

end
